theory Spec2Isabelle
  imports Main "HOL-Library.Char_ord" "HOL-Library.List_Lexorder" "HOL-Library.AList"
    "HOL-Library.Multiset"
begin

section \<open>Go values shared by the packages\<close>

text \<open>
  A Go function of the drivers either returns, fails with an \<open>error\<close> value, panics
  (\<open>panic\<close>, \<open>log.Panicf\<close>, a failed type assertion, an index out of range) or ends the
  process (\<open>log.Fatal\<close>).  The three failures are values of \<open>err\<close>; the text is the
  constant part of the message.
\<close>

datatype err = Error string | Panic string | Fatal string

text \<open>
  Go strings are byte strings compared bytewise; \<open>sort.Strings\<close> and \<open><\<close> on strings are
  the lexicographic order of \<open>char list\<close>.  The classification of runes
  (\<open>unicode.IsLetter\<close>, \<open>unicode.IsDigit\<close>, \<open>unicode.IsUpper\<close>) is modelled on ASCII:
  the three predicates below agree with the library on ASCII names and call every other
  byte neither letter, digit nor upper case, so names outside ASCII are outside the model.
  Every name of the examples is ASCII.
\<close>

definition isUpper :: "char \<Rightarrow> bool" where
  "isUpper c = (CHR ''A'' \<le> c \<and> c \<le> CHR ''Z'')"

definition isLetter :: "char \<Rightarrow> bool" where
  "isLetter c = ((CHR ''A'' \<le> c \<and> c \<le> CHR ''Z'') \<or> (CHR ''a'' \<le> c \<and> c \<le> CHR ''z''))"

definition isDigit :: "char \<Rightarrow> bool" where
  "isDigit c = (CHR ''0'' \<le> c \<and> c \<le> CHR ''9'')"

section \<open>go/types as the object-path package sees it\<close>

text \<open>
  \<open>types.Object\<close> values are canonical and compared by pointer.  An object of the model
  carries its address \<open>addr\<close>, so that two objects with the same name and type stay distinct,
  and \<open>==\<close> on objects is equality.  Types are trees; a \<open>*types.Named\<close> is a leaf holding the
  address of the named type, whose methods and underlying type are looked up in the
  \<open>world\<close>, as are the path, the scope and the direct imports of a \<open>*types.Package\<close>.  A signature records only
  whether it has a receiver (\<open>Recv() != nil\<close>), its parameters and its results.
\<close>

datatype okind = KVar | KFunc | KTypeName | KConst | KPkgName | KLabel | KBuiltin | KNil

datatype gtype = Basic | Named nat | Pointer gtype | Slice gtype | Array gtype | Chan gtype
  | Map gtype gtype | Signature bool "object list" "object list"
  | Struct "object list" | Tuple "object list" | Interface "object list"
and object = Obj (addr: nat) (okind: okind) (oname: string) (opkg: "nat option")
  (otype: gtype) (isField: bool)

type_synonym scope = "(string \<times> object) list"

record world =
  pkg_path :: "nat \<Rightarrow> string"
  pkg_scope :: "nat \<Rightarrow> scope"
  pkg_imports :: "nat \<Rightarrow> nat list"
  named_methods :: "nat \<Rightarrow> object list"
  named_underlying :: "nat \<Rightarrow> gtype"

text \<open>\<open>Scope.Lookup\<close> and \<open>Scope.Names\<close> (the names in sorted order).\<close>

definition Lookup :: "scope \<Rightarrow> string \<Rightarrow> object option" where
  "Lookup sc name = map_of sc name"

definition Names :: "scope \<Rightarrow> string list" where
  "Names sc = sort (remdups (map fst sc))"

text \<open>
  \<open>Object.Exported\<close> and \<open>Object.Id\<close> of go/types: an exported name is its own id, any other
  name is qualified with the path of its package (\<open>_\<close> when there is none).
\<close>

definition Exported :: "object \<Rightarrow> bool" where
  "Exported obj = (case oname obj of [] \<Rightarrow> False | c # _ \<Rightarrow> isUpper c)"

definition Id :: "world \<Rightarrow> object \<Rightarrow> string" where
  "Id w obj =
     (if Exported obj then oname obj
      else (case opkg obj of
              None \<Rightarrow> ''_''
            | Some p \<Rightarrow> (if pkg_path w p \<noteq> [] then pkg_path w p else ''_''))
           @ ''.'' @ oname obj)"

section \<open>Package objectpath\<close>

text \<open>A path under construction is a \<open>[]interface{}\<close> of strings and ints.\<close>

datatype elem = S string | I int

definition opKey :: string where "opKey = ''!key''"
definition opValue :: string where "opValue = ''!value''"
definition opParams :: string where "opParams = ''!params''"
definition opResults :: string where "opResults = ''!results''"
definition opUnderlying :: string where "opUnderlying = ''!underlying''"

subsection \<open>The encoder: pathOf and Of\<close>

text \<open>
  The closure \<open>find\<close> of \<open>pathOf\<close>.  The loops over the fields of a struct, over the methods
  of an interface and over the declared methods of a named type have the same body
  (\<open>find_members\<close>); \<open>find_tuple\<close> is the loop of the tuple case, \<open>i\<close> its index.
  A nil result is \<open>None\<close>.
\<close>

lemma size_otype [simp]: "size (otype f) < size f"
  by (cases f) simp

function find_enc :: "world \<Rightarrow> object \<Rightarrow> elem list \<Rightarrow> gtype \<Rightarrow> elem list option"
and find_members :: "world \<Rightarrow> object \<Rightarrow> elem list \<Rightarrow> object list \<Rightarrow> elem list option"
and find_tuple :: "world \<Rightarrow> object \<Rightarrow> elem list \<Rightarrow> nat \<Rightarrow> object list \<Rightarrow> elem list option"
where
  "find_enc w obj path Basic = None"
| "find_enc w obj path (Named n) = None"
| "find_enc w obj path (Pointer T) = find_enc w obj path T"
| "find_enc w obj path (Slice T) = find_enc w obj path T"
| "find_enc w obj path (Array T) = find_enc w obj path T"
| "find_enc w obj path (Chan T) = find_enc w obj path T"
| "find_enc w obj path (Map K V) =
     (case find_enc w obj (path @ [S opKey]) K of
        Some r \<Rightarrow> Some r
      | None \<Rightarrow> find_enc w obj (path @ [S opValue]) V)"
| "find_enc w obj path (Signature recv ps rs) =
     (case find_tuple w obj (path @ [S opParams]) 0 ps of
        Some r \<Rightarrow> Some r
      | None \<Rightarrow> find_tuple w obj (path @ [S opResults]) 0 rs)"
| "find_enc w obj path (Struct fs) = find_members w obj path fs"
| "find_enc w obj path (Tuple vs) = find_tuple w obj path 0 vs"
| "find_enc w obj path (Interface ms) = find_members w obj path ms"
| "find_members w obj path [] = None"
| "find_members w obj path (f # fs) =
     (let path2 = path @ [S (Id w f)] in
      if f = obj then Some path2
      else (case find_enc w obj path2 (otype f) of
              Some r \<Rightarrow> Some r
            | None \<Rightarrow> find_members w obj path fs))"
| "find_tuple w obj path i [] = None"
| "find_tuple w obj path i (v # vs) =
     (case find_enc w obj (path @ [I (int i)]) (otype v) of
        Some r \<Rightarrow> Some r
      | None \<Rightarrow> find_tuple w obj path (Suc i) vs)"
  by pat_completeness auto
termination
  by (relation "measure (\<lambda>x. case x of
          Inl (w, obj, path, T) \<Rightarrow> size T
        | Inr (Inl (w, obj, path, fs)) \<Rightarrow> size_list size fs
        | Inr (Inr (w, obj, path, i, vs)) \<Rightarrow> size_list size vs)")
     (simp_all add: less_SucI trans_less_add1)

text \<open>
  \<open>obj.Type().(*types.Signature).Recv() != nil\<close>: the type of a \<open>*types.Func\<close> is asserted
  to be a signature, and the assertion panics on any other type.
\<close>

definition hasRecv :: "object \<Rightarrow> err + bool" where
  "hasRecv obj =
     (case otype obj of
        Signature recv ps rs \<Rightarrow> Inr recv
      | _ \<Rightarrow> Inl (Panic ''interface conversion: types.Type is not *types.Signature''))"

text \<open>The switch of \<open>pathOf\<close> that rejects what is neither a field nor a method.\<close>

definition quick_reject :: "object \<Rightarrow> err option" where
  "quick_reject obj =
     (case okind obj of
        KVar \<Rightarrow> (if isField obj then None else Some (Error ''var is not a field''))
      | KFunc \<Rightarrow>
          (case hasRecv obj of
             Inl e \<Rightarrow> Some e
           | Inr recv \<Rightarrow> (if recv then None else Some (Error ''func is not a method'')))
      | _ \<Rightarrow> Some (Error ''not a package-level object, nor a field or method''))"

text \<open>
  The first loop over \<open>scope.Names()\<close>: entities whose type is named are searched (declared
  methods, then the underlying type), the others are saved for the second pass.
  \<open>Inl\<close> is the early return of a path, \<open>Inr\<close> the list \<open>nontypes\<close> at the end of the loop.
  A name of \<open>Names\<close> is always found by \<open>Lookup\<close>.
\<close>

fun scope_pass1 ::
  "world \<Rightarrow> object \<Rightarrow> scope \<Rightarrow> string list \<Rightarrow> object list \<Rightarrow> elem list + object list"
where
  "scope_pass1 w obj sc [] nontypes = Inr nontypes"
| "scope_pass1 w obj sc (name # names) nontypes =
     (case Lookup sc name of
        None \<Rightarrow> scope_pass1 w obj sc names nontypes
      | Some o1 \<Rightarrow>
          (case otype o1 of
             Named n \<Rightarrow>
               (case find_members w obj [S name] (named_methods w n) of
                  Some r \<Rightarrow> Inl r
                | None \<Rightarrow>
                    (case find_enc w obj [S name, S opUnderlying] (named_underlying w n) of
                       Some r \<Rightarrow> Inl r
                     | None \<Rightarrow> scope_pass1 w obj sc names nontypes))
           | _ \<Rightarrow> scope_pass1 w obj sc names (nontypes @ [o1])))"

fun scope_pass2 :: "world \<Rightarrow> object \<Rightarrow> object list \<Rightarrow> elem list option" where
  "scope_pass2 w obj [] = None"
| "scope_pass2 w obj (o1 # os) =
     (case find_enc w obj [S (oname o1)] (otype o1) of
        Some r \<Rightarrow> Some r
      | None \<Rightarrow> scope_pass2 w obj os)"

definition pathOf :: "world \<Rightarrow> object \<Rightarrow> err + elem list" where
  "pathOf w obj =
     (case opkg obj of
        None \<Rightarrow> Inl (Error ''universal objects have no path'')
      | Some p \<Rightarrow>
          (let sc = pkg_scope w p in
           if Lookup sc (oname obj) = Some obj then Inr [S (oname obj)]
           else (case quick_reject obj of
                   Some e \<Rightarrow> Inl e
                 | None \<Rightarrow>
                     (case scope_pass1 w obj sc (Names sc) [] of
                        Inl r \<Rightarrow> Inr r
                      | Inr nontypes \<Rightarrow>
                          (case scope_pass2 w obj nontypes of
                             Some r \<Rightarrow> Inr r
                           | None \<Rightarrow> Inl (Error ''cannot find path''))))))"

text \<open>\<open>fmt.Fprint\<close> of a path element: a string as it is, an int in decimal.\<close>

fun digits :: "nat \<Rightarrow> string" where
  "digits n = (if n < 10 then [''0123456789'' ! n]
               else digits (n div 10) @ [''0123456789'' ! (n mod 10)])"

declare digits.simps [simp del]

definition itoa :: "int \<Rightarrow> string" where
  "itoa i = (if i < 0 then CHR ''-'' # digits (nat (- i)) else digits (nat i))"

fun Fprint :: "elem \<Rightarrow> string" where
  "Fprint (S s) = s"
| "Fprint (I i) = itoa i"

fun join_dots :: "string list \<Rightarrow> string" where
  "join_dots [] = []"
| "join_dots [x] = x"
| "join_dots (x # y # ys) = x @ CHR ''.'' # join_dots (y # ys)"

definition Of :: "world \<Rightarrow> object \<Rightarrow> err + string" where
  "Of w obj =
     (case pathOf w obj of
        Inl e \<Rightarrow> Inl e
      | Inr path \<Rightarrow> Inr (join_dots (map Fprint path)))"

subsection \<open>The decoder: parse and FindObject\<close>

text \<open>\<open>strings.Split(s, ".")\<close>: the substrings between the dots; the empty string gives one
  empty word.\<close>

fun Split :: "string \<Rightarrow> string list" where
  "Split [] = [[]]"
| "Split (c # cs) =
     (if c = CHR ''.'' then [] # Split cs
      else (case Split cs of
              [] \<Rightarrow> [[c]]
            | word # ws \<Rightarrow> (c # word) # ws))"

text \<open>
  \<open>strconv.Atoi\<close> of the standard library, for the 64-bit \<open>int\<close>: an optional sign and
  decimal digits whose value fits the type; anything else is an error (\<open>None\<close>).
\<close>

definition digit_val :: "char \<Rightarrow> int" where
  "digit_val c = int (of_char c) - 48"

definition Atoi :: "string \<Rightarrow> int option" where
  "Atoi s =
     (let neg = (s \<noteq> [] \<and> hd s = CHR ''-'');
          ds = (if s \<noteq> [] \<and> (hd s = CHR ''-'' \<or> hd s = CHR ''+'') then tl s else s)
      in if ds \<noteq> [] \<and> list_all isDigit ds
         then (let n = foldl (\<lambda>a c. 10 * a + digit_val c) 0 ds;
                   v = (if neg then - n else n)
               in if - (2 ^ 63) \<le> v \<and> v < 2 ^ 63 then Some v else None)
         else None)"

text \<open>\<open>validIdent\<close>: \<open>i\<close> is the index of the rune in the name.\<close>

fun validIdent_from :: "nat \<Rightarrow> string \<Rightarrow> bool" where
  "validIdent_from i [] = True"
| "validIdent_from i (r # rs) =
     (if r = CHR ''_'' \<or> isLetter r \<or> (i > 0 \<and> isDigit r) then validIdent_from (Suc i) rs
      else False)"

definition validIdent :: "string \<Rightarrow> bool" where
  "validIdent name = (if validIdent_from 0 name then name \<noteq> [] else False)"

text \<open>The body of the loop of \<open>parse\<close> for one word, and the loop, which returns at the first
  word that is not an element.\<close>

definition parse_word :: "string \<Rightarrow> err + elem" where
  "parse_word word =
     (case Atoi word of
        Some n \<Rightarrow> Inr (I n)
      | None \<Rightarrow>
          (if word = opKey \<or> word = opValue \<or> word = opParams \<or> word = opResults
               \<or> word = opUnderlying
           then Inr (S word)
           else if validIdent word then Inr (S word)
           else Inl (Error ''invalid path: not an identifier'')))"

fun parse_words :: "string list \<Rightarrow> err + elem list" where
  "parse_words [] = Inr []"
| "parse_words (word # ws) =
     (case parse_word word of
        Inl e \<Rightarrow> Inl e
      | Inr x \<Rightarrow> (case parse_words ws of Inl e \<Rightarrow> Inl e | Inr xs \<Rightarrow> Inr (x # xs)))"

definition parse :: "string \<Rightarrow> err + elem list" where
  "parse s = parse_words (Split s)"

text \<open>
  The closure \<open>find\<close> of \<open>FindObject\<close>.  A type assertion with \<open>ok\<close> fails into an error; the
  index of \<open>T.At(index)\<close> is checked against \<open>T.Len()\<close> only from above, and \<open>At\<close> panics
  below zero: with an index out of range, or, on the empty tuple, which go/types
  represents by a nil pointer, with a nil dereference.  The loops over methods and fields
  stop at the first match (\<open>List.find\<close>).
\<close>

function find_dec :: "world \<Rightarrow> elem list \<Rightarrow> gtype \<Rightarrow> err + object" where
  "find_dec w path (Pointer T) = find_dec w path T"
| "find_dec w path (Slice T) = find_dec w path T"
| "find_dec w path (Array T) = find_dec w path T"
| "find_dec w path (Chan T) = find_dec w path T"
| "find_dec w path Basic = Inl (Error ''unexpected basic type'')"
| "find_dec w path (Map K V) =
     (case path of
        [] \<Rightarrow> Inl (Error ''in map: bad path'')
      | e # rest \<Rightarrow>
          (if e = S opKey then find_dec w rest K
           else if e = S opValue then find_dec w rest V
           else Inl (Error ''in map: unexpected path element'')))"
| "find_dec w path (Named n) =
     (case path of
        [] \<Rightarrow> Inl (Error ''in named: bad path'')
      | I i # rest \<Rightarrow> Inl (Error ''in named: got int, want method name'')
      | S name # rest \<Rightarrow>
          (if name = opUnderlying then find_dec w rest (named_underlying w n)
           else (case List.find (\<lambda>m. oname m = name) (named_methods w n) of
                   None \<Rightarrow> Inl (Error ''named type has no method'')
                 | Some m \<Rightarrow> (if rest = [] then Inr m else find_dec w rest (otype m)))))"
| "find_dec w path (Struct fs) =
     (case path of
        [] \<Rightarrow> Inl (Error ''in struct: empty path'')
      | I i # rest \<Rightarrow> Inl (Error ''in struct: got int, want field name'')
      | S ident # rest \<Rightarrow>
          (case List.find (\<lambda>fld. Id w fld = ident) fs of
             None \<Rightarrow> Inl (Error ''in struct: no field'')
           | Some fld \<Rightarrow> (if rest = [] then Inr fld else find_dec w rest (otype fld))))"
| "find_dec w path (Tuple vs) =
     (case path of
        [] \<Rightarrow> Inl (Error ''in map: empty path'')
      | S s # rest \<Rightarrow> Inl (Error ''in named: got string, want index'')
      | I index # rest \<Rightarrow>
          (if index \<ge> int (length vs) then Inl (Error ''in tuple: index out of range'')
           else if index < 0
           then Inl (Panic (if vs = [] then ''nil pointer dereference''
                            else ''index out of range''))
           else find_dec w rest (otype (vs ! nat index))))"
| "find_dec w path (Interface ms) =
     (case path of
        [] \<Rightarrow> Inl (Error ''in interface: empty path'')
      | I i # rest \<Rightarrow> Inl (Error ''in interface: got int, want method name'')
      | S ident # rest \<Rightarrow>
          (case List.find (\<lambda>m. Id w m = ident) ms of
             None \<Rightarrow> Inl (Error ''in interface: no method'')
           | Some m \<Rightarrow> (if rest = [] then Inr m else find_dec w rest (otype m))))"
| "find_dec w path (Signature recv ps rs) =
     (case path of
        [] \<Rightarrow> Inl (Error ''in func: empty path'')
      | I i # rest \<Rightarrow> Inl (Error ''in func: got int, want params/results'')
      | S name # rest \<Rightarrow>
          (if name = opParams then find_dec w rest (Tuple ps)
           else if name = opResults then find_dec w rest (Tuple rs)
           else Inl (Error ''in signature: unexpected path element'')))"
  by pat_completeness auto
termination
  by (relation "measures [\<lambda>(w, path, T). length path, \<lambda>(w, path, T). size T]") simp_all

text \<open>
  \<open>FindObject\<close>.  The first element of the path is asserted to be a string without \<open>ok\<close>:
  on an int the assertion panics.
\<close>

definition FindObject :: "world \<Rightarrow> nat \<Rightarrow> string \<Rightarrow> err + object" where
  "FindObject w pkg p =
     (case parse p of
        Inl e \<Rightarrow> Inl e
      | Inr path \<Rightarrow>
          (case path of
             [] \<Rightarrow> Inl (Error ''empty path'')
           | I n # rest \<Rightarrow> Inl (Panic ''interface conversion: interface {} is int, not string'')
           | S name # rest \<Rightarrow>
               (case Lookup (pkg_scope w pkg) name of
                  None \<Rightarrow> Inl (Error ''not defined'')
                | Some obj \<Rightarrow> (if rest = [] then Inr obj else find_dec w rest (otype obj)))))"

section \<open>Lemmas (facts) and analyses\<close>

text \<open>
  A lemma is a value of a user-defined type; the drivers look only at its dynamic type
  (\<open>reflect.TypeOf\<close>).  A \<open>reflect.Type\<close> is compared by identity and printed by \<open>String()\<close>:
  two types may print alike.  Of an \<open>analysis.Analysis\<close> the drivers use the fields below;
  its \<open>Run\<close> callback is a parameter of the executors.
\<close>

datatype rtype = RType (rid: nat) (rname: string)

datatype Lemma = LemmaV (TypeOf: rtype) (payload: string)

datatype analysis = MkAnalysis (Name: string) (LemmaTypes: "rtype list")
  (Requires: "analysis list") (RunDespiteErrors: bool) (OutputType: "rtype option")

text \<open>A call of \<open>unit.SetObjectLemma(obj, lemma)\<close> or of \<open>unit.SetPackageLemma(lemma)\<close> made
  by a \<open>Run\<close> callback.\<close>

datatype setcall = SetObj object Lemma | SetPkg Lemma

section \<open>The compile-protocol driver: the lemma set and the vetx files\<close>

text \<open>
  A Go map is an association list with distinct keys: \<open>map_of\<close> reads it, \<open>AList.update\<close> is
  the assignment \<open>m[k] = v\<close>, and the order of the list is the order in which \<open>range\<close> visits
  the map, which the language leaves open.
\<close>

datatype lemmaKey = LemmaKey (k_obj: "object option") (k_pkgpath: string) (k_t: rtype)

record gobLemma =
  Object :: string
  PkgPath :: string
  Lemma :: Lemma

record lemmaSet =
  ls_pkg :: nat
  ls_m :: "(lemmaKey \<times> Lemma) list"

definition setObj :: "lemmaSet \<Rightarrow> object \<Rightarrow> Lemma \<Rightarrow> err + lemmaSet" where
  "setObj ls obj lemma =
     (if opkg obj \<noteq> Some (ls_pkg ls)
      then Inl (Panic ''cannot set lemma on object belonging another package'')
      else Inr (ls\<lparr>ls_m := AList.update (LemmaKey (Some obj) [] (TypeOf lemma)) lemma (ls_m ls)\<rparr>))"

definition setPkg :: "world \<Rightarrow> lemmaSet \<Rightarrow> Lemma \<Rightarrow> lemmaSet" where
  "setPkg w ls lemma =
     ls\<lparr>ls_m := AList.update (LemmaKey None (pkg_path w (ls_pkg ls)) (TypeOf lemma)) lemma
                  (ls_m ls)\<rparr>"

definition checkLemma :: "analysis \<Rightarrow> Lemma \<Rightarrow> err option" where
  "checkLemma a lemma =
     (if TypeOf lemma \<in> set (LemmaTypes a) then None
      else Some (Panic ''internal error: type is not a Lemma type of analysis''))"

text \<open>
  The loop of \<open>readLemmas\<close> over the records of one vetx file.  A record whose object is not
  found is skipped.
\<close>

fun read_records ::
  "world \<Rightarrow> nat \<Rightarrow> gobLemma list \<Rightarrow> (lemmaKey \<times> Lemma) list \<Rightarrow> err + (lemmaKey \<times> Lemma) list"
where
  "read_records w imp [] m = Inr m"
| "read_records w imp (l # lemmas) m =
     (if PkgPath l \<noteq> []
      then read_records w imp lemmas
             (AList.update (LemmaKey None (PkgPath l) (TypeOf (Lemma l))) (Lemma l) m)
      else (case FindObject w imp (Object l) of
              Inl (Error msg) \<Rightarrow> read_records w imp lemmas m
            | Inl e \<Rightarrow> Inl e
            | Inr obj \<Rightarrow>
                read_records w imp lemmas
                  (AList.update (LemmaKey (Some obj) [] (TypeOf (Lemma l))) (Lemma l) m)))"

text \<open>
  The loop of \<open>readLemmas\<close> over \<open>pkg.Imports()\<close>.  \<open>inputFiles\<close> is \<open>cfg.PackageVetx\<close>;
  \<open>vetx\<close> stands for \<open>ioutil.ReadFile\<close> followed by the gob decoder: the records of the
  file of that name, or the fatal error of reading or decoding it.
\<close>

fun read_imports ::
  "world \<Rightarrow> (string \<rightharpoonup> string) \<Rightarrow> (string \<Rightarrow> err + gobLemma list) \<Rightarrow> nat list
     \<Rightarrow> (lemmaKey \<times> Lemma) list \<Rightarrow> err + (lemmaKey \<times> Lemma) list"
where
  "read_imports w inputFiles vetx [] m = Inr m"
| "read_imports w inputFiles vetx (imp # imps) m =
     (case inputFiles (pkg_path w imp) of
        None \<Rightarrow> read_imports w inputFiles vetx imps m
      | Some filename \<Rightarrow>
          (case vetx filename of
             Inl e \<Rightarrow> Inl e
           | Inr lemmas \<Rightarrow>
               (case read_records w imp lemmas m of
                  Inl e \<Rightarrow> Inl e
                | Inr m' \<Rightarrow> read_imports w inputFiles vetx imps m')))"

definition readLemmas ::
  "world \<Rightarrow> (string \<rightharpoonup> string) \<Rightarrow> (string \<Rightarrow> err + gobLemma list) \<Rightarrow> nat \<Rightarrow> err + lemmaSet"
where
  "readLemmas w inputFiles vetx pkg =
     (case read_imports w inputFiles vetx (pkg_imports w pkg) [] of
        Inl e \<Rightarrow> Inl e
      | Inr m \<Rightarrow> Inr \<lparr>ls_pkg = pkg, ls_m = m\<rparr>)"

text \<open>
  The first loop of \<open>writeLemmas\<close>, over the entries of the map in the order \<open>range\<close> yields
  them; \<open>gobLemmas\<close> is the slice built so far.
\<close>

fun gather :: "world \<Rightarrow> (lemmaKey \<times> Lemma) list \<Rightarrow> gobLemma list \<Rightarrow> err + gobLemma list" where
  "gather w [] gobLemmas = Inr gobLemmas"
| "gather w ((k, lemma) # entries) gobLemmas =
     (case k_obj k of
        Some obj \<Rightarrow>
          (case Of w obj of
             Inl (Error msg) \<Rightarrow> gather w entries gobLemmas
           | Inl e \<Rightarrow> Inl e
           | Inr path \<Rightarrow>
               gather w entries
                 (gobLemmas @ [\<lparr>Object = path, PkgPath = [], Lemma = lemma\<rparr>]))
      | None \<Rightarrow>
          gather w entries
            (gobLemmas @ [\<lparr>Object = [], PkgPath = k_pkgpath k, Lemma = lemma\<rparr>]))"

text \<open>The \<open>less\<close> function handed to \<open>sort.Slice\<close>.\<close>

definition less_gob :: "gobLemma \<Rightarrow> gobLemma \<Rightarrow> bool" where
  "less_gob x y =
     (if Object x \<noteq> Object y then Object x < Object y
      else (let tx = TypeOf (Lemma x); ty = TypeOf (Lemma y)
            in if tx \<noteq> ty then rname tx < rname ty else False))"

text \<open>
  \<open>sort.Slice\<close> of the standard library sorts in place by \<open>less\<close> and is not stable.  On a
  short slice (up to 6 elements in every release, up to 12 in recent ones) it is the
  insertion sort below: each element moves left while it is less than its left neighbour.
  \<open>insert_left\<close> works on the reversed prefix.  What is proved of longer slices below uses
  only that the result is a permutation of the slice.
\<close>

fun insert_left :: "('a \<Rightarrow> 'a \<Rightarrow> bool) \<Rightarrow> 'a \<Rightarrow> 'a list \<Rightarrow> 'a list" where
  "insert_left lt x [] = [x]"
| "insert_left lt x (y # ys) = (if lt x y then y # insert_left lt x ys else x # y # ys)"

definition sort_Slice :: "('a \<Rightarrow> 'a \<Rightarrow> bool) \<Rightarrow> 'a list \<Rightarrow> 'a list" where
  "sort_Slice lt xs = rev (foldl (\<lambda>pre x. insert_left lt x pre) [] xs)"

text \<open>
  \<open>writeLemmas\<close>, up to the slice handed to the gob encoder, whose bytes are written to
  the file.
\<close>

definition writeLemmas :: "world \<Rightarrow> lemmaSet \<Rightarrow> err + gobLemma list" where
  "writeLemmas w ls =
     (case gather w (ls_m ls) [] of
        Inl e \<Rightarrow> Inl e
      | Inr gobLemmas \<Rightarrow> Inr (sort_Slice less_gob gobLemmas))"

text \<open>
  The part of \<open>main\<close> from \<open>readLemmas\<close> to \<open>writeLemmas\<close>: \<open>analysed_lemmas\<close> is the lemma
  set when \<open>execAll(analyses)\<close> has returned.  The \<open>Run\<close> callbacks act on the
  lemma set through \<open>unit.SetObjectLemma\<close> and \<open>unit.SetPackageLemma\<close>, which lock the set:
  \<open>calls\<close> is the sequence of their calls, each with the analysis whose unit it belongs
  to.
\<close>

fun unit_call :: "world \<Rightarrow> analysis \<times> setcall \<Rightarrow> lemmaSet \<Rightarrow> err + lemmaSet" where
  "unit_call w (a, SetObj obj l) lemmas =
     (case checkLemma a l of Some e \<Rightarrow> Inl e | None \<Rightarrow> setObj lemmas obj l)"
| "unit_call w (a, SetPkg l) lemmas =
     (case checkLemma a l of Some e \<Rightarrow> Inl e | None \<Rightarrow> Inr (setPkg w lemmas l))"

fun unit_calls :: "world \<Rightarrow> (analysis \<times> setcall) list \<Rightarrow> lemmaSet \<Rightarrow> err + lemmaSet" where
  "unit_calls w [] lemmas = Inr lemmas"
| "unit_calls w (c # cs) lemmas =
     (case unit_call w c lemmas of Inl e \<Rightarrow> Inl e | Inr lemmas' \<Rightarrow> unit_calls w cs lemmas')"

definition analysed_lemmas ::
  "world \<Rightarrow> (string \<rightharpoonup> string) \<Rightarrow> (string \<Rightarrow> err + gobLemma list) \<Rightarrow> nat
     \<Rightarrow> (analysis \<times> setcall) list \<Rightarrow> err + lemmaSet"
where
  "analysed_lemmas w PackageVetx vetx pkg calls =
     (case readLemmas w PackageVetx vetx pkg of
        Inl e \<Rightarrow> Inl e
      | Inr lemmas \<Rightarrow> unit_calls w calls lemmas)"

definition main_lemmas ::
  "world \<Rightarrow> (string \<rightharpoonup> string) \<Rightarrow> (string \<Rightarrow> err + gobLemma list) \<Rightarrow> nat
     \<Rightarrow> (analysis \<times> setcall) list \<Rightarrow> err + gobLemma list"
where
  "main_lemmas w PackageVetx vetx pkg calls =
     (case analysed_lemmas w PackageVetx vetx pkg calls of
        Inl e \<Rightarrow> Inl e
      | Inr lemmas \<Rightarrow> writeLemmas w lemmas)"

section \<open>The checker: actions\<close>

text \<open>
  Of a \<open>packages.Package\<close> the checker uses the identifier, the map \<open>Imports\<close> from import
  paths to packages, the \<open>*types.Package\<close> and the flag \<open>IllTyped\<close>.  Imports are acyclic,
  as is \<open>Requires\<close>: both are trees here.  \<open>mkAction\<close> creates one action for each pair of an
  analysis and a package, so a pointer to an action is modelled by that pair, and the
  actions live in a map from the pairs (\<open>nil\<close> is a pair outside its domain).
\<close>

datatype package = Package (ID: string) (Imports: "(string \<times> package) list") (Types: nat)
  (IllTyped: bool)

type_synonym key = "analysis \<times> package"

datatype Value = MkValue (ValueType: rtype) (data: string)

record Unit =
  Analysis :: analysis
  Pkg :: nat
  Inputs :: "(analysis \<times> Value option) list"
  Output :: "Value option"
  SetObjectLemma :: bool
  SetPackageLemma :: bool

record action =
  act_a :: analysis
  act_pkg :: package
  act_unit :: "Unit option"
  act_isroot :: bool
  act_deps :: "key list"
  act_objLemmas :: "(object \<times> Lemma) list list"
  act_pkgLemmas :: "(nat \<times> Lemma) list list"
  act_err :: "string option"

text \<open>
  What the environment decides: the \<open>Run\<close> callbacks (the setter calls a run makes, the
  output it stores in the unit and the error it returns), the flags of \<open>Debug\<close>, the gob
  round trip \<open>codeLemma\<close>, and the \<open>String\<close> methods of an analysis and of a package.
\<close>

record run_result =
  r_calls :: "setcall list"
  r_Output :: "Value option"
  r_err :: "string option"

record env =
  Run :: "analysis \<Rightarrow> action \<Rightarrow> run_result"
  Debug :: string
  codeLemma :: "Lemma \<Rightarrow> Lemma option"
  analysis_String :: "analysis \<Rightarrow> string"
  package_String :: "package \<Rightarrow> string"

definition dbg :: "env \<Rightarrow> char \<Rightarrow> bool" where
  "dbg env b = (b \<in> set (Debug env))"

definition action_String :: "env \<Rightarrow> key \<Rightarrow> string" where
  "action_String env k = analysis_String env (fst k) @ ''@'' @ package_String env (snd k)"

subsection \<open>mkAction\<close>

definition new_action :: "analysis \<Rightarrow> package \<Rightarrow> key list \<Rightarrow> action" where
  "new_action a pkg deps =
     \<lparr>act_a = a, act_pkg = pkg, act_unit = None, act_isroot = False, act_deps = deps,
      act_objLemmas = [], act_pkgLemmas = [], act_err = None\<rparr>"

lemma size_import:
  "(path, imp) \<in> set imps \<Longrightarrow> size imp < Suc (size_list (size_prod (\<lambda>_. 0) size) imps)"
  by (induction imps) auto

text \<open>
  The two loops of \<open>mkAction\<close> append to \<open>act.deps\<close> while the recursive calls fill the map
  \<open>actions\<close>.  The paths of the second loop are the keys of \<open>pkg.Imports\<close>, so the lookup
  \<open>pkg.Imports[path]\<close> finds a package.
\<close>

function mkAction :: "(key \<rightharpoonup> action) \<Rightarrow> analysis \<Rightarrow> package \<Rightarrow> (key \<rightharpoonup> action) \<times> key" where
  "mkAction actions a pkg =
     (case actions (a, pkg) of
        Some act \<Rightarrow> (actions, (a, pkg))
      | None \<Rightarrow>
          (let (actions1, deps1) =
                 fold (\<lambda>req (acts, deps).
                         (fst (mkAction acts req pkg), deps @ [snd (mkAction acts req pkg)]))
                   (Requires a) (actions, []);
               (actions2, deps2) =
                 (if LemmaTypes a \<noteq> []
                  then fold (\<lambda>path (acts, deps).
                               (case map_of (Imports pkg) path of
                                  None \<Rightarrow> (acts, deps)
                                | Some imp \<Rightarrow>
                                    (fst (mkAction acts a imp),
                                     deps @ [snd (mkAction acts a imp)])))
                         (sort (map fst (Imports pkg))) (actions1, deps1)
                  else (actions1, deps1))
           in (actions2((a, pkg) \<mapsto> new_action a pkg deps2), (a, pkg))))"
  by pat_completeness auto
termination
  apply (relation "measures [\<lambda>(actions, a, pkg). size a, \<lambda>(actions, a, pkg). size pkg]")
      apply simp
     apply (case_tac a; simp add: size_list_estimation' less_Suc_eq_le)
    apply (case_tac a; simp add: size_list_estimation' less_Suc_eq_le)
   apply (case_tac pkg; auto dest!: map_of_SomeD size_import)
  apply (case_tac pkg; auto dest!: map_of_SomeD size_import)
  done

declare mkAction.simps [simp del]

subsection \<open>The lemma store of an action\<close>

text \<open>\<open>lemmaIndex\<close>: the linear scan of \<open>a.LemmaTypes\<close>, from index \<open>i\<close> on.\<close>

fun lemmaIndex_from :: "rtype list \<Rightarrow> rtype \<Rightarrow> nat \<Rightarrow> err + nat" where
  "lemmaIndex_from [] t i = Inl (Panic ''internal error: type is not a Lemma type of analysis'')"
| "lemmaIndex_from (lt # lts) t i = (if lt = t then Inr i else lemmaIndex_from lts t (Suc i))"

definition lemmaIndex :: "analysis \<Rightarrow> Lemma \<Rightarrow> err + nat" where
  "lemmaIndex a lemma = lemmaIndex_from (LemmaTypes a) (TypeOf lemma) 0"

text \<open>
  The setters return the panic, if any, and the action as it is left.  The field
  \<open>SetObjectLemma\<close> of the unit is \<open>True\<close> while the function value is not nil.
\<close>

definition setObjLemma :: "action \<Rightarrow> object \<Rightarrow> Lemma \<Rightarrow> err option \<times> action" where
  "setObjLemma act obj lemma =
     (case act_unit act of
        None \<Rightarrow> (Some (Panic ''nil pointer dereference''), act)
      | Some unit \<Rightarrow>
          (if \<not> SetObjectLemma unit
           then (Some (Panic ''Unit.SetObjectLemma called after Run''), act)
           else if opkg obj \<noteq> Some (Types (act_pkg act))
           then (Some (Panic ''internal error: cannot set lemmas on objects belonging another package''),
                 act)
           else (case lemmaIndex (act_a act) lemma of
                   Inl e \<Rightarrow> (Some e, act)
                 | Inr i \<Rightarrow>
                     (if i < length (act_objLemmas act)
                      then (None,
                            act\<lparr>act_objLemmas :=
                                  (act_objLemmas act)
                                    [i := AList.update obj lemma (act_objLemmas act ! i)]\<rparr>)
                      else (Some (Panic ''index out of range''), act)))))"

definition setPkgLemma :: "action \<Rightarrow> Lemma \<Rightarrow> err option \<times> action" where
  "setPkgLemma act lemma =
     (case act_unit act of
        None \<Rightarrow> (Some (Panic ''nil pointer dereference''), act)
      | Some unit \<Rightarrow>
          (if \<not> SetPackageLemma unit
           then (Some (Panic ''Unit.SetPackageLemma called after Run''), act)
           else (case lemmaIndex (act_a act) lemma of
                   Inl e \<Rightarrow> (Some e, act)
                 | Inr i \<Rightarrow>
                     (if i < length (act_pkgLemmas act)
                      then (None,
                            act\<lparr>act_pkgLemmas :=
                                  (act_pkgLemmas act)
                                    [i := AList.update (Pkg unit) lemma (act_pkgLemmas act ! i)]\<rparr>)
                      else (Some (Panic ''index out of range''), act)))))"

subsection \<open>Inheriting lemmas from a dependency\<close>

text \<open>\<open>exportedFrom\<close>; \<open>||\<close> evaluates its right operand only when the left one is false.\<close>

definition exportedFrom :: "object \<Rightarrow> nat \<Rightarrow> err + bool" where
  "exportedFrom obj pkg =
     (case okind obj of
        KFunc \<Rightarrow> (if Exported obj \<and> opkg obj = Some pkg then Inr True else hasRecv obj)
      | KVar \<Rightarrow> Inr ((Exported obj \<and> opkg obj = Some pkg) \<or> isField obj)
      | KTypeName \<Rightarrow> Inr True
      | KConst \<Rightarrow> Inr True
      | _ \<Rightarrow> Inr False)"

text \<open>With the debug flag \<open>s\<close> a lemma is copied through \<open>codeLemma\<close>, whose failure panics.\<close>

definition recode :: "env \<Rightarrow> Lemma \<Rightarrow> err + Lemma" where
  "recode env lemma =
     (if dbg env CHR ''s''
      then (case codeLemma env lemma of
              None \<Rightarrow> Inl (Panic ''internal error: encoding of lemma failed'')
            | Some lemma' \<Rightarrow> Inr lemma')
      else Inr lemma)"

text \<open>
  The two inner loops of \<open>inheritLemmas\<close> for the index \<open>i\<close>, over the entries of
  \<open>dep.objLemmas[i]\<close> and of \<open>dep.pkgLemmas[i]\<close>; \<open>pkg\<close> is \<open>dep.pkg.Types\<close>.
\<close>

fun inherit_objs :: "env \<Rightarrow> nat \<Rightarrow> nat \<Rightarrow> (object \<times> Lemma) list \<Rightarrow> action \<Rightarrow> err + action" where
  "inherit_objs env pkg i [] act = Inr act"
| "inherit_objs env pkg i ((obj, lemma) # entries) act =
     (case exportedFrom obj pkg of
        Inl e \<Rightarrow> Inl e
      | Inr False \<Rightarrow> inherit_objs env pkg i entries act
      | Inr True \<Rightarrow>
          (case recode env lemma of
             Inl e \<Rightarrow> Inl e
           | Inr lemma' \<Rightarrow>
               (if i < length (act_objLemmas act)
                then inherit_objs env pkg i entries
                       (act\<lparr>act_objLemmas :=
                              (act_objLemmas act)
                                [i := AList.update obj lemma' (act_objLemmas act ! i)]\<rparr>)
                else Inl (Panic ''index out of range''))))"

fun inherit_pkgs :: "env \<Rightarrow> nat \<Rightarrow> (nat \<times> Lemma) list \<Rightarrow> action \<Rightarrow> err + action" where
  "inherit_pkgs env i [] act = Inr act"
| "inherit_pkgs env i ((pkg, lemma) # entries) act =
     (case recode env lemma of
        Inl e \<Rightarrow> Inl e
      | Inr lemma' \<Rightarrow>
          (if i < length (act_pkgLemmas act)
           then inherit_pkgs env i entries
                  (act\<lparr>act_pkgLemmas :=
                         (act_pkgLemmas act)
                           [i := AList.update pkg lemma' (act_pkgLemmas act ! i)]\<rparr>)
           else Inl (Panic ''index out of range'')))"

text \<open>The outer loop \<open>for i := range dep.a.LemmaTypes\<close>, over the indices \<open>is\<close>.\<close>

fun inherit_types :: "env \<Rightarrow> action \<Rightarrow> nat list \<Rightarrow> action \<Rightarrow> err + action" where
  "inherit_types env dep [] act = Inr act"
| "inherit_types env dep (i # is) act =
     (if i < length (act_objLemmas dep)
      then (case inherit_objs env (Types (act_pkg dep)) i (act_objLemmas dep ! i) act of
              Inl e \<Rightarrow> Inl e
            | Inr act1 \<Rightarrow>
                (if i < length (act_pkgLemmas dep)
                 then (case inherit_pkgs env i (act_pkgLemmas dep ! i) act1 of
                         Inl e \<Rightarrow> Inl e
                       | Inr act2 \<Rightarrow> inherit_types env dep is act2)
                 else Inl (Panic ''index out of range'')))
      else Inl (Panic ''index out of range''))"

definition inheritLemmas :: "env \<Rightarrow> action \<Rightarrow> action \<Rightarrow> err + action" where
  "inheritLemmas env act dep =
     inherit_types env dep [0..<length (LemmaTypes (act_a dep))] act"

subsection \<open>Executing the graph\<close>

text \<open>
  The state of a run: the actions, the actions whose \<open>once\<close> has fired, and the log of the
  calls of \<open>Run\<close> callbacks (kept for the proofs; the program has no such log).
\<close>

record state =
  st_actions :: "key \<rightharpoonup> action"
  st_once :: "key list"
  st_ran :: "key list"

text \<open>\<open>strings.Join\<close>.\<close>

fun Join :: "string list \<Rightarrow> string \<Rightarrow> string" where
  "Join [] sep = []"
| "Join [x] sep = x"
| "Join (x # y # ys) sep = x @ sep @ Join (y # ys) sep"

text \<open>The loop of \<open>execOnce\<close> that collects the failed dependencies.\<close>

fun failed_deps :: "env \<Rightarrow> (key \<rightharpoonup> action) \<Rightarrow> key list \<Rightarrow> string list \<Rightarrow> err + string list" where
  "failed_deps env actions [] failed = Inr failed"
| "failed_deps env actions (dep # deps) failed =
     (case actions dep of
        None \<Rightarrow> Inl (Panic ''nil pointer dereference'')
      | Some d \<Rightarrow>
          (if act_err d \<noteq> None
           then failed_deps env actions deps (failed @ [action_String env dep])
           else failed_deps env actions deps failed))"

text \<open>
  The loop that plumbs the outputs of the horizontal dependencies into \<open>inputs\<close> and
  inherits the lemmas of the vertical ones.
\<close>

fun plumb ::
  "env \<Rightarrow> (key \<rightharpoonup> action) \<Rightarrow> key list \<Rightarrow> action \<Rightarrow> (analysis \<times> Value option) list
     \<Rightarrow> err + action \<times> (analysis \<times> Value option) list"
where
  "plumb env actions [] act inputs = Inr (act, inputs)"
| "plumb env actions (dep # deps) act inputs =
     (case actions dep of
        None \<Rightarrow> Inl (Panic ''nil pointer dereference'')
      | Some d \<Rightarrow>
          (if act_pkg d = act_pkg act
           then (case act_unit d of
                   None \<Rightarrow> Inl (Panic ''nil pointer dereference'')
                 | Some unit \<Rightarrow>
                     plumb env actions deps act (AList.update (act_a d) (Output unit) inputs))
           else if act_a d = act_a act
           then (case inheritLemmas env act d of
                   Inl e \<Rightarrow> Inl e
                 | Inr act' \<Rightarrow> plumb env actions deps act' inputs)
           else plumb env actions deps act inputs))"

text \<open>The calls of the setters that a \<open>Run\<close> callback makes, in order.\<close>

fun set_calls :: "setcall list \<Rightarrow> action \<Rightarrow> err option \<times> action" where
  "set_calls [] act = (None, act)"
| "set_calls (SetObj obj lemma # cs) act =
     (case setObjLemma act obj lemma of
        (Some e, act') \<Rightarrow> (Some e, act')
      | (None, act') \<Rightarrow> set_calls cs act')"
| "set_calls (SetPkg lemma # cs) act =
     (case setPkgLemma act lemma of
        (Some e, act') \<Rightarrow> (Some e, act')
      | (None, act') \<Rightarrow> set_calls cs act')"

text \<open>
  The last statements of \<open>execOnce\<close>: the error is stored in the action and the setters
  of its unit are set to nil.
\<close>

definition seal :: "action \<Rightarrow> Unit \<Rightarrow> string option \<Rightarrow> action" where
  "seal act unit err =
     act\<lparr>act_err := err,
         act_unit := Some (unit\<lparr>SetObjectLemma := False, SetPackageLemma := False\<rparr>)\<rparr>"

text \<open>
  The end of \<open>execOnce\<close>: the unit is built and stored in the action, the analysis runs
  unless the package is ill-typed, and the type of the output is checked.
\<close>

definition run_unit ::
  "env \<Rightarrow> key \<Rightarrow> action \<Rightarrow> (analysis \<times> Value option) list \<Rightarrow> state \<Rightarrow> err + state"
where
  "run_unit env k act inputs st =
     (let unit = \<lparr>Analysis = act_a act, Pkg = Types (act_pkg act), Inputs = inputs,
                  Output = None, SetObjectLemma = True, SetPackageLemma = True\<rparr>;
          act1 = act\<lparr>act_unit := Some unit\<rparr>
      in if IllTyped (act_pkg act) \<and> \<not> RunDespiteErrors (act_a act)
         then Inr (st\<lparr>st_actions := (st_actions st)(k \<mapsto>
                       seal act1 unit (Some ''analysis skipped due to errors in package''))\<rparr>)
         else (let r = Run env (act_a act) act1
               in case set_calls (r_calls r) act1 of
                    (Some e, act2) \<Rightarrow> Inl e
                  | (None, act2) \<Rightarrow>
                      (let err = (case r_err r of
                                    Some e \<Rightarrow> Some e
                                  | None \<Rightarrow>
                                      (if map_option ValueType (r_Output r)
                                            \<noteq> OutputType (act_a act)
                                       then Some ''internal error: analysis produced Output of another type than its declared OutputType''
                                       else None))
                       in Inr (st\<lparr>st_actions := (st_actions st)(k \<mapsto>
                                     seal act2 (unit\<lparr>Output := r_Output r\<rparr>) err),
                                  st_ran := st_ran st @ [k]\<rparr>))))"

text \<open>\<open>execOnce\<close> after \<open>execAll(act.deps)\<close> has returned.\<close>

definition execOnce_rest :: "env \<Rightarrow> key \<Rightarrow> state \<Rightarrow> err + state" where
  "execOnce_rest env k st =
     (case st_actions st k of
        None \<Rightarrow> Inl (Panic ''nil pointer dereference'')
      | Some act \<Rightarrow>
          (case failed_deps env (st_actions st) (act_deps act) [] of
             Inl e \<Rightarrow> Inl e
           | Inr failed \<Rightarrow>
               (if failed \<noteq> []
                then Inr (st\<lparr>st_actions := (st_actions st)(k \<mapsto>
                              act\<lparr>act_err :=
                                    Some (''failed prerequisites: '' @ Join (sort failed) '', '')\<rparr>)\<rparr>)
                else (case plumb env (st_actions st) (act_deps act)
                             (act\<lparr>act_objLemmas := replicate (length (LemmaTypes (act_a act))) [],
                                  act_pkgLemmas := replicate (length (LemmaTypes (act_a act))) []\<rparr>)
                             [] of
                        Inl e \<Rightarrow> Inl e
                      | Inr (act1, inputs) \<Rightarrow> run_unit env k act1 inputs st))))"

text \<open>
  \<open>exec\<close>, \<open>execOnce\<close> and \<open>execAll\<close> in the sequential mode (debug flag \<open>p\<close>).  The recursion
  follows the dependencies stored in the actions, so it is bounded by fuel; \<open>None\<close> is a run
  that does not return within the fuel.
\<close>

fun exec :: "nat \<Rightarrow> env \<Rightarrow> key \<Rightarrow> state \<Rightarrow> (err + state) option"
and execAll :: "nat \<Rightarrow> env \<Rightarrow> key list \<Rightarrow> state \<Rightarrow> (err + state) option"
where
  "exec 0 env k st = None"
| "exec (Suc n) env k st =
     (case st_actions st k of
        None \<Rightarrow> Some (Inl (Panic ''nil pointer dereference''))
      | Some act \<Rightarrow>
          (if k \<in> set (st_once st) then Some (Inr st)
           else (case execAll n env (act_deps act) st of
                   None \<Rightarrow> None
                 | Some (Inl e) \<Rightarrow> Some (Inl e)
                 | Some (Inr st1) \<Rightarrow>
                     (case execOnce_rest env k st1 of
                        Inl e \<Rightarrow> Some (Inl e)
                      | Inr st2 \<Rightarrow> Some (Inr (st2\<lparr>st_once := k # st_once st2\<rparr>))))))"
| "execAll n env [] st = Some (Inr st)"
| "execAll n env (k # ks) st =
     (case exec n env k st of
        None \<Rightarrow> None
      | Some (Inl e) \<Rightarrow> Some (Inl e)
      | Some (Inr st1) \<Rightarrow> execAll n env ks st1)"

section \<open>Predicates of the statements\<close>

text \<open>An object is at package scope when the scope of its package maps its name to it.\<close>

definition at_package_scope :: "world \<Rightarrow> object \<Rightarrow> bool" where
  "at_package_scope w obj =
     (case opkg obj of None \<Rightarrow> False | Some p \<Rightarrow> Lookup (pkg_scope w p) (oname obj) = Some obj)"

text \<open>
  go/types gives every \<open>*types.Func\<close> a signature as its type; \<open>func_typed\<close> says so of an
  object.
\<close>

definition func_typed :: "object \<Rightarrow> bool" where
  "func_typed obj =
     (if okind obj = KFunc then (case otype obj of Signature recv ps rs \<Rightarrow> True | _ \<Rightarrow> False)
      else True)"

text \<open>
  The record that an entry of the lemma set contributes to the vetx file, in the words of
  the specification: a package lemma contributes its record; an object lemma contributes
  one record if the path of its object can be produced, and none otherwise.
\<close>

definition record_of :: "world \<Rightarrow> lemmaKey \<times> Lemma \<Rightarrow> gobLemma option" where
  "record_of w e =
     (case k_obj (fst e) of
        None \<Rightarrow> Some \<lparr>Object = [], PkgPath = k_pkgpath (fst e), Lemma = snd e\<rparr>
      | Some obj \<Rightarrow>
          (case Of w obj of
             Inl e' \<Rightarrow> None
           | Inr path \<Rightarrow> Some \<lparr>Object = path, PkgPath = [], Lemma = snd e\<rparr>))"


text \<open>After \<open>execOnce\<close> has built a unit and sealed it, the setters of the unit are nil.\<close>

definition after_Run :: "action \<Rightarrow> bool" where
  "after_Run act =
     (case act_unit act of
        None \<Rightarrow> False
      | Some unit \<Rightarrow> \<not> SetObjectLemma unit \<and> \<not> SetPackageLemma unit)"

text \<open>
  The lemma that \<open>inheritLemmas\<close> copies for an object from the entries of a dependency,
  in the words of the specification: the object has a lemma there and is visible across
  the boundary of the package of the dependency; the copy goes through \<open>recode\<close>.
\<close>

definition copied :: "env \<Rightarrow> nat \<Rightarrow> (object \<times> Lemma) list \<Rightarrow> object \<Rightarrow> Lemma option" where
  "copied env pkg entries obj =
     (case map_of entries obj of
        None \<Rightarrow> None
      | Some l \<Rightarrow>
          (if exportedFrom obj pkg = Inr True
           then (case recode env l of Inl e \<Rightarrow> None | Inr l' \<Rightarrow> Some l')
           else None))"

text \<open>
  The dependencies of the action of an analysis on a package, in the words of the
  specification: one horizontal edge for each required analysis, and, if the analysis
  declares a lemma type, one vertical edge for each import path of the package, in
  ascending order of the paths.  \<open>graph_ok\<close> says that every action of a map has these
  dependencies.
\<close>

definition horizontal :: "analysis \<Rightarrow> package \<Rightarrow> key list" where
  "horizontal a pkg = map (\<lambda>req. (req, pkg)) (Requires a)"

definition vertical :: "analysis \<Rightarrow> package \<Rightarrow> key list" where
  "vertical a pkg =
     (if LemmaTypes a = [] then []
      else List.map_filter (\<lambda>path. map_option (Pair a) (map_of (Imports pkg) path))
             (sort (map fst (Imports pkg))))"

definition graph_ok :: "(key \<rightharpoonup> action) \<Rightarrow> bool" where
  "graph_ok actions =
     (\<forall>a pkg act. actions (a, pkg) = Some act \<longrightarrow>
        act_a act = a \<and> act_pkg act = pkg \<and> act_deps act = horizontal a pkg @ vertical a pkg)"

text \<open>A dependency has failed when its action holds an error.\<close>

definition dep_failed :: "state \<Rightarrow> key \<Rightarrow> bool" where
  "dep_failed st dep = (case st_actions st dep of None \<Rightarrow> False | Some d \<Rightarrow> act_err d \<noteq> None)"

text \<open>Two states hold the same actions with the same dependencies.\<close>

definition keeps :: "state \<Rightarrow> state \<Rightarrow> bool" where
  "keeps st st' =
     (\<forall>d. map_option act_deps (st_actions st' d) = map_option act_deps (st_actions st d))"

section \<open>Example packages\<close>

text \<open>
  Package \<open>p\<close>, at address 1:
  \<^verbatim>\<open>
  package p
  type T struct{ x int }
  func F(a int) { v := a; _ = v }
  \<close>
\<close>

definition fld_x :: object where
  "fld_x = Obj 10 KVar ''x'' (Some 1) Basic True"

definition type_T :: object where
  "type_T = Obj 11 KTypeName ''T'' (Some 1) (Named 0) False"

definition param_a :: object where
  "param_a = Obj 12 KVar ''a'' (Some 1) Basic False"

definition func_F :: object where
  "func_F = Obj 13 KFunc ''F'' (Some 1) (Signature False [param_a] []) False"

definition local_v :: object where
  "local_v = Obj 14 KVar ''v'' (Some 1) Basic False"

definition world_p :: world where
  "world_p =
     \<lparr>pkg_path = (\<lambda>_. ''p''),
      pkg_scope = (\<lambda>_. [(''T'', type_T), (''F'', func_F)]),
      pkg_imports = (\<lambda>_. []),
      named_methods = (\<lambda>_. []),
      named_underlying = (\<lambda>_. Struct [fld_x])\<rparr>"

text \<open>
  The lemma type of the analysis \<open>pkglemma\<close>, and lemma sets of package \<open>p\<close>: the same two
  package lemmas in the two orders in which \<open>range\<close> may yield them, and two object lemmas,
  on the local \<open>v\<close> and on the type \<open>T\<close>.
\<close>

definition note_type :: rtype where
  "note_type = RType 0 ''*pkglemma.note''"

definition lemmas_ab :: lemmaSet where
  "lemmas_ab =
     \<lparr>ls_pkg = 1,
      ls_m = [(LemmaKey None ''a'' note_type, LemmaV note_type ''A''),
              (LemmaKey None ''b'' note_type, LemmaV note_type ''B'')]\<rparr>"

definition lemmas_ba :: lemmaSet where
  "lemmas_ba =
     \<lparr>ls_pkg = 1,
      ls_m = [(LemmaKey None ''b'' note_type, LemmaV note_type ''B''),
              (LemmaKey None ''a'' note_type, LemmaV note_type ''A'')]\<rparr>"

definition lemmas_vT :: lemmaSet where
  "lemmas_vT =
     \<lparr>ls_pkg = 1,
      ls_m = [(LemmaKey (Some local_v) [] note_type, LemmaV note_type ''V''),
              (LemmaKey (Some type_T) [] note_type, LemmaV note_type ''T'')]\<rparr>"

text \<open>
  Packages \<open>q\<close> (address 2), which imports \<open>p\<close>; \<open>e\<close> (address 3), which declares
  \<^verbatim>\<open>type E error\<close>, so that the underlying interface of \<open>E\<close> holds the method \<open>Error\<close> of
  the universe, an object without package; and \<open>r\<close> (address 4), which imports \<open>e\<close>.
  \<open>vetx_files\<close> is \<open>cfg.PackageVetx\<close> and \<open>vetx_disk\<close> the content of the files.
\<close>

definition method_Error :: object where
  "method_Error = Obj 30 KFunc ''Error'' None (Signature True [] [Obj 31 KVar [] None Basic False]) False"
definition type_E :: object where
  "type_E = Obj 32 KTypeName ''E'' (Some 3) (Named 6) False"

definition world_q :: world where
  "world_q =
     \<lparr>pkg_path = (\<lambda>n. if n = 1 then ''p'' else if n = 2 then ''q'' else if n = 3 then ''e'' else ''r''),
      pkg_scope = (\<lambda>n. if n = 1 then [(''T'', type_T), (''F'', func_F)]
                        else if n = 3 then [(''E'', type_E)] else []),
      pkg_imports = (\<lambda>n. if n = 2 then [1] else if n = 4 then [3] else []),
      named_methods = (\<lambda>_. []),
      named_underlying = (\<lambda>n. if n = 6 then Interface [method_Error] else Struct [fld_x])\<rparr>"

definition vetx_files :: "string \<rightharpoonup> string" where
  "vetx_files = [''p'' \<mapsto> ''p.vetx'', ''e'' \<mapsto> ''e.vetx'']"

definition vetx_disk :: "string \<Rightarrow> err + gobLemma list" where
  "vetx_disk filename =
     (if filename = ''p.vetx''
      then Inr [\<lparr>Object = ''T'', PkgPath = [], Lemma = LemmaV note_type ''T''\<rparr>,
                \<lparr>Object = [], PkgPath = ''p'', Lemma = LemmaV note_type ''P''\<rparr>]
      else if filename = ''e.vetx''
      then Inr [\<lparr>Object = ''E.!underlying.Error'', PkgPath = [], Lemma = LemmaV note_type ''E''\<rparr>]
      else Inl (Fatal ''reading vetx file''))"

text \<open>
  An analysis with the lemma type \<open>note_type\<close>, the package \<open>p\<close> as the loader gives it, an
  environment whose \<open>Run\<close> callbacks do nothing, and the action of the analysis on \<open>p\<close>
  as \<open>execOnce\<close> leaves it.
\<close>

definition analysis_A :: analysis where
  "analysis_A = MkAnalysis ''A'' [note_type] [] False None"

definition package_p :: package where
  "package_p = Package ''p'' [] 1 False"

definition env_idle :: env where
  "env_idle =
     \<lparr>Run = (\<lambda>a act. \<lparr>r_calls = [], r_Output = None, r_err = None\<rparr>),
      Debug = [],
      codeLemma = Some,
      analysis_String = Name,
      package_String = ID\<rparr>"

definition action_Ap :: action where
  "action_Ap =
     \<lparr>act_a = analysis_A, act_pkg = package_p,
      act_unit = Some \<lparr>Analysis = analysis_A, Pkg = 1, Inputs = [], Output = None,
                        SetObjectLemma = False, SetPackageLemma = False\<rparr>,
      act_isroot = True, act_deps = [], act_objLemmas = [[]], act_pkgLemmas = [[]],
      act_err = None\<rparr>"

text \<open>
  Package \<open>q\<close> declares \<^verbatim>\<open>func h()\<close>.  The action of \<open>analysis_A\<close> on \<open>q\<close> holds a lemma
  on \<open>h\<close> and a lemma on the type \<open>T\<close> of package \<open>p\<close>, which it inherited; the action of
  \<open>analysis_A\<close> on \<open>r\<close>, a package that imports \<open>q\<close>, has just made its empty maps.
\<close>

definition func_h :: object where
  "func_h = Obj 40 KFunc ''h'' (Some 2) (Signature False [] []) False"

definition package_q :: package where
  "package_q = Package ''q'' [(''p'', package_p)] 2 False"

definition package_r :: package where
  "package_r = Package ''r'' [(''q'', package_q)] 4 False"

definition action_Aq :: action where
  "action_Aq =
     \<lparr>act_a = analysis_A, act_pkg = package_q,
      act_unit = Some \<lparr>Analysis = analysis_A, Pkg = 2, Inputs = [], Output = None,
                        SetObjectLemma = False, SetPackageLemma = False\<rparr>,
      act_isroot = False, act_deps = [(analysis_A, package_p)],
      act_objLemmas = [[(func_h, LemmaV note_type ''h''), (type_T, LemmaV note_type ''T'')]],
      act_pkgLemmas = [[]],
      act_err = None\<rparr>"

definition action_Ar :: action where
  "action_Ar =
     \<lparr>act_a = analysis_A, act_pkg = package_r, act_unit = None, act_isroot = True,
      act_deps = [(analysis_A, package_q)], act_objLemmas = [[]], act_pkgLemmas = [[]],
      act_err = None\<rparr>"

text \<open>Package \<open>s\<close> imports \<open>q\<close> and \<open>p\<close>.\<close>

definition package_s :: package where
  "package_s = Package ''s'' [(''q'', package_q), (''p'', package_p)] 5 False"

text \<open>
  Analysis \<open>B\<close> requires \<open>analysis_A\<close>.  In the environment \<open>env_fail\<close> the \<open>Run\<close> callback of
  \<open>A\<close> returns an error.  \<open>state_AB\<close> holds the two actions on package \<open>p\<close> as \<open>mkAction\<close>
  makes them, and \<open>state_A_failed\<close> is the state when the action of \<open>A\<close> has run.
\<close>

definition analysis_B :: analysis where
  "analysis_B = MkAnalysis ''B'' [] [analysis_A] False None"

definition env_fail :: env where
  "env_fail =
     \<lparr>Run = (\<lambda>a act. \<lparr>r_calls = [], r_Output = None,
                        r_err = (if Name a = ''A'' then Some ''boom'' else None)\<rparr>),
      Debug = [],
      codeLemma = Some,
      analysis_String = Name,
      package_String = ID\<rparr>"

definition state_AB :: state where
  "state_AB =
     \<lparr>st_actions = [(analysis_A, package_p) \<mapsto> new_action analysis_A package_p [],
                    (analysis_B, package_p) \<mapsto>
                      new_action analysis_B package_p [(analysis_A, package_p)]],
      st_once = [], st_ran = []\<rparr>"

definition action_A_failed :: action where
  "action_A_failed =
     \<lparr>act_a = analysis_A, act_pkg = package_p,
      act_unit = Some \<lparr>Analysis = analysis_A, Pkg = 1, Inputs = [], Output = None,
                        SetObjectLemma = False, SetPackageLemma = False\<rparr>,
      act_isroot = False, act_deps = [], act_objLemmas = [[]], act_pkgLemmas = [[]],
      act_err = Some ''boom''\<rparr>"

definition state_A_failed :: state where
  "state_A_failed =
     \<lparr>st_actions = [(analysis_A, package_p) \<mapsto> action_A_failed,
                    (analysis_B, package_p) \<mapsto>
                      new_action analysis_B package_p [(analysis_A, package_p)]],
      st_once = [(analysis_A, package_p)], st_ran = [(analysis_A, package_p)]\<rparr>"

text \<open>
  Package \<open>u\<close> (address 5) imports \<open>q\<close>, and the vetx file of \<open>q\<close> is what the driver
  wrote for \<open>q\<close> from the files above.
\<close>

definition world_u :: world where
  "world_u =
     world_q\<lparr>pkg_path := (\<lambda>n. if n = 5 then ''u'' else pkg_path world_q n),
             pkg_imports := (\<lambda>n. if n = 5 then [2] else pkg_imports world_q n)\<rparr>"

definition vetx_files_u :: "string \<rightharpoonup> string" where
  "vetx_files_u = vetx_files(''q'' \<mapsto> ''q.vetx'')"

definition vetx_disk_u :: "string \<Rightarrow> err + gobLemma list" where
  "vetx_disk_u filename =
     (if filename = ''q.vetx'' then main_lemmas world_q vetx_files vetx_disk 2 []
      else vetx_disk filename)"

text \<open>
  Analysis \<open>C\<close> requires nothing and analysis \<open>D\<close> requires \<open>C\<close>, \<open>B\<close> and \<open>A\<close>, in this
  order.  \<open>state_D\<close> holds the four actions on package \<open>p\<close> as \<open>mkAction\<close> makes them.
\<close>

definition analysis_C :: analysis where
  "analysis_C = MkAnalysis ''C'' [] [] False None"

definition analysis_D :: analysis where
  "analysis_D = MkAnalysis ''D'' [] [analysis_C, analysis_B, analysis_A] False None"

definition state_D :: state where
  "state_D =
     \<lparr>st_actions = [(analysis_A, package_p) \<mapsto> new_action analysis_A package_p [],
                    (analysis_B, package_p) \<mapsto>
                      new_action analysis_B package_p [(analysis_A, package_p)],
                    (analysis_C, package_p) \<mapsto> new_action analysis_C package_p [],
                    (analysis_D, package_p) \<mapsto>
                      new_action analysis_D package_p
                        [(analysis_C, package_p), (analysis_B, package_p),
                         (analysis_A, package_p)]],
      st_once = [], st_ran = []\<rparr>"

section \<open>Object paths\<close>

text \<open>
  C1 (object-path round trip).  The claim asks that \<open>FindObject\<close> finds every object again
  from the path \<open>Of\<close> gives it.  The encoder names a field or method by \<open>Id()\<close>, which
  qualifies an unexported name with the path of the package and so holds a dot; the
  decoder splits the path at every dot.  For the unexported field \<open>x\<close> of \<open>type T struct{ x int }\<close>
  in package \<open>p\<close> the encoder succeeds with \<open>T.!underlying.p.x\<close> and the decoder, given this
  path and the same package, fails.
\<close>

theorem roundtrip_unexported_field:
  "Of world_p fld_x = Inr ''T.!underlying.p.x''
   \<and> FindObject world_p 1 ''T.!underlying.p.x'' = Inl (Error ''in struct: no field'')"
  by code_simp

lemma parse_int_word: "parse ''0'' = Inr [I 0]"
  by code_simp

text \<open>
  C8 (decoder totality).  The claim asks that \<open>FindObject\<close> returns an object or an error
  for every path.  On the path \<open>0\<close>, in any package, the unchecked assertion
  \<open>path[0].(string)\<close> panics; on \<open>F.!params.-1\<close> the negative index passes the test against
  \<open>T.Len()\<close> and \<open>T.At\<close> panics.
\<close>

theorem FindObject_panics:
  "FindObject w pkg ''0''
     = Inl (Panic ''interface conversion: interface {} is int, not string'')
   \<and> FindObject world_p 1 ''F.!params.-1'' = Inl (Panic ''index out of range'')"
proof
  show "FindObject w pkg ''0''
          = Inl (Panic ''interface conversion: interface {} is int, not string'')"
    by (simp add: FindObject_def parse_int_word)
  show "FindObject world_p 1 ''F.!params.-1'' = Inl (Panic ''index out of range'')"
    by code_simp
qed

lemma quick_reject_Error:
  assumes "okind obj \<in> {KPkgName, KLabel, KConst, KTypeName}
           \<or> (okind obj = KVar \<and> \<not> isField obj)
           \<or> (okind obj = KFunc \<and> hasRecv obj = Inr False)"
  shows "\<exists>msg. quick_reject obj = Some (Error msg)"
  using assms by (auto simp: quick_reject_def split: okind.splits)

text \<open>
  C9 (encoder failure cases).  \<open>Of\<close> returns an error for every object without a package
  (a universe entity), and for every object that is not at package scope and is a package
  name, a label, a constant, a type name, a variable that is not a field, or a function
  whose signature has no receiver.  Locals are among these.
\<close>

theorem Of_not_addressable:
  assumes "opkg obj = None
           \<or> (\<not> at_package_scope w obj
              \<and> (okind obj \<in> {KPkgName, KLabel, KConst, KTypeName}
                 \<or> (okind obj = KVar \<and> \<not> isField obj)
                 \<or> (okind obj = KFunc \<and> hasRecv obj = Inr False)))"
  shows "\<exists>msg. Of w obj = Inl (Error msg)"
proof (cases "opkg obj")
  case None
  then show ?thesis by (simp add: Of_def pathOf_def)
next
  case (Some p)
  with assms have scope: "Lookup (pkg_scope w p) (oname obj) \<noteq> Some obj"
    and kind: "okind obj \<in> {KPkgName, KLabel, KConst, KTypeName}
               \<or> (okind obj = KVar \<and> \<not> isField obj)
               \<or> (okind obj = KFunc \<and> hasRecv obj = Inr False)"
    by (auto simp: at_package_scope_def)
  from quick_reject_Error [OF kind] obtain msg where "quick_reject obj = Some (Error msg)" ..
  with Some scope show ?thesis by (simp add: Of_def pathOf_def)
qed

theorem Of_not_addressable_witness:
  "\<not> at_package_scope world_p local_v \<and> okind local_v = KVar \<and> \<not> isField local_v
   \<and> (\<exists>msg. Of world_p local_v = Inl (Error msg))"
  using Of_not_addressable [of local_v world_p]
  by (simp add: at_package_scope_def local_v_def world_p_def Lookup_def)

section \<open>The vetx files\<close>

text \<open>
  C6 (fact-file determinism).  The claim asks that the slice written to the file depends
  only on the set of entries of the lemma set.  \<open>less\<close> compares the object path and the
  name of the lemma type, so two package lemmas of one type, whose object paths are both
  empty, are equal for it, and the insertion sort leaves them in the order of the map
  iteration.  The two lemma sets below hold the same entries, and their files differ.
\<close>

theorem writeLemmas_iteration_order:
  "set (ls_m lemmas_ab) = set (ls_m lemmas_ba)
   \<and> distinct (map fst (ls_m lemmas_ab)) \<and> distinct (map fst (ls_m lemmas_ba))
   \<and> writeLemmas world_p lemmas_ab
       = Inr [\<lparr>Object = [], PkgPath = ''a'', Lemma = LemmaV note_type ''A''\<rparr>,
              \<lparr>Object = [], PkgPath = ''b'', Lemma = LemmaV note_type ''B''\<rparr>]
   \<and> writeLemmas world_p lemmas_ba
       = Inr [\<lparr>Object = [], PkgPath = ''b'', Lemma = LemmaV note_type ''B''\<rparr>,
              \<lparr>Object = [], PkgPath = ''a'', Lemma = LemmaV note_type ''A''\<rparr>]"
  by (auto simp: lemmas_ab_def lemmas_ba_def writeLemmas_def sort_Slice_def less_gob_def)

lemma hasRecv_typed: "func_typed obj \<Longrightarrow> okind obj = KFunc \<Longrightarrow> \<exists>r. hasRecv obj = Inr r"
  by (auto simp: func_typed_def hasRecv_def split: gtype.splits)

lemma quick_reject_typed:
  "func_typed obj \<Longrightarrow> quick_reject obj = Some e \<Longrightarrow> \<exists>msg. e = Error msg"
  by (cases "okind obj") (auto simp: quick_reject_def dest!: hasRecv_typed split: if_splits)

lemma Of_typed:
  assumes "func_typed obj" "Of w obj = Inl e"
  shows "\<exists>msg. e = Error msg"
proof -
  from assms(2) have p: "pathOf w obj = Inl e"
    by (auto simp: Of_def split: sum.splits)
  show ?thesis
  proof (cases "opkg obj")
    case None
    with p show ?thesis by (auto simp: pathOf_def)
  next
    case (Some q)
    with p quick_reject_typed [OF assms(1)] show ?thesis
      by (auto simp: pathOf_def Let_def split: if_splits option.splits sum.splits)
  qed
qed

lemma gather_records:
  assumes "list_all (\<lambda>e. case k_obj (fst e) of None \<Rightarrow> True | Some obj \<Rightarrow> func_typed obj)
             entries"
  shows "gather w entries acc = Inr (acc @ List.map_filter (record_of w) entries)"
  using assms
proof (induction entries arbitrary: acc)
  case Nil
  then show ?case by simp
next
  case (Cons e entries)
  obtain k l where e: "e = (k, l)" by (cases e)
  show ?case
  proof (cases "k_obj k")
    case None
    with Cons e show ?thesis by (simp add: record_of_def)
  next
    case (Some obj)
    with Cons.prems e have typed: "func_typed obj" by simp
    show ?thesis
    proof (cases "Of w obj")
      case (Inl e')
      with Of_typed [OF typed] obtain msg where "e' = Error msg" by blast
      with Inl Some Cons e show ?thesis by (simp add: record_of_def)
    next
      case (Inr path)
      with Some Cons e show ?thesis by (simp add: record_of_def)
    qed
  qed
qed

lemma mset_insert_left: "mset (insert_left lt x xs) = add_mset x (mset xs)"
  by (induction xs) auto

lemma mset_foldl_insert_left:
  "mset (foldl (\<lambda>pre x. insert_left lt x pre) acc xs) = mset acc + mset xs"
  by (induction xs arbitrary: acc) (auto simp: mset_insert_left)

lemma mset_sort_Slice: "mset (sort_Slice lt xs) = mset xs"
  by (simp add: sort_Slice_def mset_foldl_insert_left)

text \<open>
  C7 (writer-side filtering).  For a lemma set whose function objects have signatures,
  \<open>writeLemmas\<close> returns without error, and the records it writes are, as a multiset,
  those of \<open>record_of\<close>: one for each object lemma whose object \<open>Of\<close> encodes, none for an
  object lemma on which \<open>Of\<close> returns an error, one for each package lemma.
\<close>

theorem writeLemmas_filters:
  assumes "list_all (\<lambda>e. case k_obj (fst e) of None \<Rightarrow> True | Some obj \<Rightarrow> func_typed obj)
             (ls_m ls)"
  shows "\<exists>recs. writeLemmas w ls = Inr recs
           \<and> mset recs = mset (List.map_filter (record_of w) (ls_m ls))"
  using gather_records [OF assms, of w "[]"]
  by (simp add: writeLemmas_def mset_sort_Slice)

theorem writeLemmas_filters_witness:
  "list_all (\<lambda>e. case k_obj (fst e) of None \<Rightarrow> True | Some obj \<Rightarrow> func_typed obj)
     (ls_m lemmas_vT)
   \<and> (\<exists>msg. Of world_p local_v = Inl (Error msg))
   \<and> writeLemmas world_p lemmas_vT
       = Inr [\<lparr>Object = ''T'', PkgPath = [], Lemma = LemmaV note_type ''T''\<rparr>]"
proof -
  have typed:
    "list_all (\<lambda>e. case k_obj (fst e) of None \<Rightarrow> True | Some obj \<Rightarrow> func_typed obj)
       (ls_m lemmas_vT)"
    by (simp add: lemmas_vT_def func_typed_def local_v_def type_T_def)
  have v: "Of world_p local_v = Inl (Error ''var is not a field'')"
    by code_simp
  have t: "Of world_p type_T = Inr ''T''"
    by code_simp
  from writeLemmas_filters [OF typed, of world_p] obtain recs where
    w: "writeLemmas world_p lemmas_vT = Inr recs" and
    m: "mset recs = mset (List.map_filter (record_of world_p) (ls_m lemmas_vT))"
    by blast
  from m v t have
    "mset recs = {#\<lparr>Object = ''T'', PkgPath = [], Lemma = LemmaV note_type ''T''\<rparr>#}"
    by (simp add: lemmas_vT_def record_of_def)
  then have "recs = [\<lparr>Object = ''T'', PkgPath = [], Lemma = LemmaV note_type ''T''\<rparr>]"
    by simp
  with typed v w show ?thesis by blast
qed

















text \<open>
  The next hop.  The file written for \<open>q\<close> holds the lemma on the type \<open>T\<close> under the path
  \<open>T\<close>, which \<open>Of\<close> gives relative to the package \<open>p\<close> of the object; the record does not
  name that package.  Package \<open>u\<close> imports \<open>q\<close> only: \<open>readLemmas\<close> looks the path up in
  \<open>q\<close>, finds no object and skips the record, so the file written for \<open>u\<close> holds the
  package lemma of \<open>p\<close> and not the lemma on \<open>T\<close>, although \<open>Of\<close> still encodes \<open>T\<close>.
\<close>

lemma vetx_second_hop:
  "vetx_disk_u ''q.vetx''
     = Inr [\<lparr>Object = [], PkgPath = ''p'', Lemma = LemmaV note_type ''P''\<rparr>,
            \<lparr>Object = ''T'', PkgPath = [], Lemma = LemmaV note_type ''T''\<rparr>]
   \<and> pkg_imports world_u 5 = [2]
   \<and> vetx_files_u (pkg_path world_u 2) = Some ''q.vetx''
   \<and> FindObject world_u 2 ''T'' = Inl (Error ''not defined'')
   \<and> Of world_u type_T = Inr ''T''
   \<and> main_lemmas world_u vetx_files_u vetx_disk_u 5 []
       = Inr [\<lparr>Object = [], PkgPath = ''p'', Lemma = LemmaV note_type ''P''\<rparr>]"
  by code_simp

section \<open>The lemma store of an action\<close>

lemma lemmaIndex_from_undeclared:
  "t \<notin> set lts \<Longrightarrow> \<exists>msg. lemmaIndex_from lts t i = Inl (Panic msg)"
  by (induction lts arbitrary: i) auto

lemma lemmaIndex_undeclared:
  "TypeOf l \<notin> set (LemmaTypes a) \<Longrightarrow> \<exists>msg. lemmaIndex a l = Inl (Panic msg)"
  by (simp add: lemmaIndex_def lemmaIndex_from_undeclared)

lemma lemmaIndex_from_Inl:
  "lemmaIndex_from lts t i = Inl e \<Longrightarrow> \<exists>msg. e = Panic msg"
  by (induction lts arbitrary: i) (auto split: if_splits)

lemma setObjLemma_after_Run:
  assumes "after_Run act"
  shows "\<exists>msg. setObjLemma act obj l = (Some (Panic msg), act)"
  using assms by (auto simp: after_Run_def setObjLemma_def split: option.splits)

lemma setObjLemma_other_package:
  assumes "opkg obj \<noteq> Some (Types (act_pkg act))"
  shows "\<exists>msg. setObjLemma act obj l = (Some (Panic msg), act)"
  using assms by (auto simp: setObjLemma_def split: option.splits)

lemma setObjLemma_undeclared:
  assumes "TypeOf l \<notin> set (LemmaTypes (act_a act))"
  shows "\<exists>msg. setObjLemma act obj l = (Some (Panic msg), act)"
proof -
  from lemmaIndex_undeclared [OF assms] obtain msg where
    "lemmaIndex (act_a act) l = Inl (Panic msg)" ..
  then show ?thesis by (auto simp: setObjLemma_def split: option.splits)
qed

lemma setPkgLemma_after_Run:
  assumes "after_Run act"
  shows "\<exists>msg. setPkgLemma act l = (Some (Panic msg), act)"
  using assms by (auto simp: after_Run_def setPkgLemma_def split: option.splits)

lemma setPkgLemma_undeclared:
  assumes "TypeOf l \<notin> set (LemmaTypes (act_a act))"
  shows "\<exists>msg. setPkgLemma act l = (Some (Panic msg), act)"
proof -
  from lemmaIndex_undeclared [OF assms] obtain msg where
    "lemmaIndex (act_a act) l = Inl (Panic msg)" ..
  then show ?thesis by (auto simp: setPkgLemma_def split: option.splits)
qed

lemma after_Run_seal: "after_Run (seal act unit err)"
  by (simp add: after_Run_def seal_def)

lemma run_unit_after_Run:
  assumes "run_unit env k act0 inputs st = Inr st'"
  shows "\<exists>act'. st_actions st' k = Some act' \<and> after_Run act'"
proof -
  from assms obtain act1 unit err st1 where
    "st' = st1\<lparr>st_actions := (st_actions st)(k \<mapsto> seal act1 unit err)\<rparr>
     \<or> st' = st1\<lparr>st_actions := (st_actions st)(k \<mapsto> seal act1 unit err),
                  st_ran := st_ran st @ [k]\<rparr>"
    unfolding run_unit_def Let_def
    by (auto split: if_splits prod.splits option.splits)
  then show ?thesis by (auto simp: after_Run_seal)
qed

text \<open>
  C4 (fact-store contract).  \<open>execOnce\<close> leaves the action with the setters of its unit set
  to nil whether \<open>Run\<close> was called or skipped.  \<open>setObjLemma\<close> panics and returns the action
  as it was when the setters are nil, when the object belongs to another package than
  the action's, or when the type of the lemma is not among the lemma types of the
  analysis; \<open>setPkgLemma\<close> does so when the setters are nil or the type is not declared.
\<close>

theorem setters_contract:
  "(run_unit env k act0 inputs st = Inr st'
      \<longrightarrow> (\<exists>act'. st_actions st' k = Some act' \<and> after_Run act'))
   \<and> (after_Run act \<or> opkg obj \<noteq> Some (Types (act_pkg act))
        \<or> TypeOf l \<notin> set (LemmaTypes (act_a act))
      \<longrightarrow> (\<exists>msg. setObjLemma act obj l = (Some (Panic msg), act)))
   \<and> (after_Run act \<or> TypeOf l \<notin> set (LemmaTypes (act_a act))
      \<longrightarrow> (\<exists>msg. setPkgLemma act l = (Some (Panic msg), act)))"
  using run_unit_after_Run setObjLemma_after_Run setObjLemma_other_package
    setObjLemma_undeclared setPkgLemma_after_Run setPkgLemma_undeclared
  by blast


theorem setters_contract_witness:
  "run_unit env_idle (analysis_A, package_p)
       (new_action analysis_A package_p []\<lparr>act_objLemmas := [[]], act_pkgLemmas := [[]]\<rparr>) []
       \<lparr>st_actions = Map.empty, st_once = [], st_ran = []\<rparr>
     = Inr \<lparr>st_actions = [(analysis_A, package_p) \<mapsto> action_Ap\<lparr>act_isroot := False\<rparr>],
            st_once = [], st_ran = [(analysis_A, package_p)]\<rparr>
   \<and> after_Run action_Ap
   \<and> (\<exists>msg. setObjLemma action_Ap type_T (LemmaV note_type ''n'') = (Some (Panic msg), action_Ap))
   \<and> (\<exists>msg. setPkgLemma action_Ap (LemmaV note_type ''n'') = (Some (Panic msg), action_Ap))"
proof -
  have run: "run_unit env_idle (analysis_A, package_p)
       (new_action analysis_A package_p []\<lparr>act_objLemmas := [[]], act_pkgLemmas := [[]]\<rparr>) []
       \<lparr>st_actions = Map.empty, st_once = [], st_ran = []\<rparr>
     = Inr \<lparr>st_actions = [(analysis_A, package_p) \<mapsto> action_Ap\<lparr>act_isroot := False\<rparr>],
            st_once = [], st_ran = [(analysis_A, package_p)]\<rparr>"
    by (simp add: run_unit_def env_idle_def new_action_def seal_def action_Ap_def
          analysis_A_def package_p_def)
  have sealed: "after_Run action_Ap"
    by (simp add: after_Run_def action_Ap_def)
  with setters_contract [of env_idle k act0 inputs st st' action_Ap type_T "LemmaV note_type ''n''"]
  have "(\<exists>msg. setObjLemma action_Ap type_T (LemmaV note_type ''n'') = (Some (Panic msg), action_Ap))
      \<and> (\<exists>msg. setPkgLemma action_Ap (LemmaV note_type ''n'') = (Some (Panic msg), action_Ap))"
    by blast
  with run sealed show ?thesis by blast
qed

section \<open>Inheriting lemmas\<close>

lemma exportedFrom_iff:
  "(exportedFrom obj pkg = Inr True) =
     ((okind obj = KFunc \<and> ((Exported obj \<and> opkg obj = Some pkg) \<or> hasRecv obj = Inr True))
      \<or> (okind obj = KVar \<and> ((Exported obj \<and> opkg obj = Some pkg) \<or> isField obj))
      \<or> okind obj = KTypeName \<or> okind obj = KConst)"
  by (cases "okind obj") (auto simp: exportedFrom_def)

lemma inherit_objs_frame:
  assumes "inherit_objs env pkg i entries act = Inr act'"
  shows "length (act_objLemmas act') = length (act_objLemmas act)
       \<and> act_pkgLemmas act' = act_pkgLemmas act
       \<and> (\<forall>j. j \<noteq> i \<longrightarrow> act_objLemmas act' ! j = act_objLemmas act ! j)"
  using assms
proof (induction entries arbitrary: act)
  case Nil
  then show ?case by simp
next
  case (Cons e entries)
  obtain obj l where e: "e = (obj, l)" by (cases e)
  show ?case
  proof (cases "exportedFrom obj pkg = Inr True")
    case False
    with Cons.prems e have "inherit_objs env pkg i entries act = Inr act'"
      by (auto split: sum.splits bool.splits)
    from Cons.IH [OF this] show ?thesis .
  next
    case True
    with Cons.prems e obtain l' where
      step: "inherit_objs env pkg i entries
               (act\<lparr>act_objLemmas :=
                      (act_objLemmas act)[i := AList.update obj l' (act_objLemmas act ! i)]\<rparr>)
             = Inr act'"
      by (auto split: sum.splits if_splits)
    from Cons.IH [OF step] show ?thesis by simp
  qed
qed

lemma inherit_objs_copies:
  assumes "inherit_objs env pkg i entries act = Inr act'"
    and "distinct (map fst entries)"
  shows "map_of (act_objLemmas act' ! i) obj =
           (case copied env pkg entries obj of
              Some l' \<Rightarrow> Some l'
            | None \<Rightarrow> map_of (act_objLemmas act ! i) obj)
       \<and> ((copied env pkg entries obj \<noteq> None) =
            (obj \<in> dom (map_of entries) \<and> exportedFrom obj pkg = Inr True))"
  using assms
proof (induction entries arbitrary: act)
  case Nil
  then show ?case by (simp add: copied_def)
next
  case (Cons e entries)
  obtain o1 l where e: "e = (o1, l)" by (cases e)
  from Cons.prems(2) e have fresh: "map_of entries o1 = None" and dist: "distinct (map fst entries)"
    by (auto simp: map_of_eq_None_iff)
  show ?case
  proof (cases "exportedFrom o1 pkg = Inr True")
    case False
    with Cons.prems e have step: "inherit_objs env pkg i entries act = Inr act'"
      by (auto split: sum.splits bool.splits)
    from Cons.IH [OF step dist] False e fresh show ?thesis
      by (auto simp: copied_def split: option.splits)
  next
    case True
    with Cons.prems e obtain l' where rec: "recode env l = Inr l'"
      and len: "i < length (act_objLemmas act)"
      and step: "inherit_objs env pkg i entries
               (act\<lparr>act_objLemmas :=
                      (act_objLemmas act)[i := AList.update o1 l' (act_objLemmas act ! i)]\<rparr>)
             = Inr act'"
      by (auto split: sum.splits if_splits)
    from Cons.IH [OF step dist] have ih:
      "map_of (act_objLemmas act' ! i) obj =
         (case copied env pkg entries obj of
            Some l' \<Rightarrow> Some l'
          | None \<Rightarrow> map_of ((act_objLemmas act)[i := AList.update o1 l' (act_objLemmas act ! i)] ! i) obj)"
      and iff: "(copied env pkg entries obj \<noteq> None) =
            (obj \<in> dom (map_of entries) \<and> exportedFrom obj pkg = Inr True)"
      by (simp_all cong: option.case_cong)
    show ?thesis
    proof (cases "obj = o1")
      case True
      with fresh have "copied env pkg entries obj = None" by (simp add: copied_def)
      with ih len True \<open>exportedFrom o1 pkg = Inr True\<close> rec e show ?thesis
        by (auto simp: copied_def update_conv')
    next
      case False
      with e have "copied env pkg (e # entries) obj = copied env pkg entries obj"
        by (simp add: copied_def)
      with ih iff len False e show ?thesis
        by (auto simp: update_conv' split: option.splits)
    qed
  qed
qed

lemma inherit_pkgs_frame:
  assumes "inherit_pkgs env i entries act = Inr act'"
  shows "act_objLemmas act' = act_objLemmas act
       \<and> length (act_pkgLemmas act') = length (act_pkgLemmas act)"
  using assms
proof (induction entries arbitrary: act)
  case Nil
  then show ?case by simp
next
  case (Cons e entries)
  obtain pkg l where e: "e = (pkg, l)" by (cases e)
  with Cons.prems obtain l' where
    step: "inherit_pkgs env i entries
             (act\<lparr>act_pkgLemmas :=
                    (act_pkgLemmas act)[i := AList.update pkg l' (act_pkgLemmas act ! i)]\<rparr>)
           = Inr act'"
    by (auto split: sum.splits if_splits)
  from Cons.IH [OF step] show ?case by simp
qed

lemma inherit_types_frame:
  assumes "inherit_types env dep js act = Inr act'" and "i \<notin> set js"
  shows "act_objLemmas act' ! i = act_objLemmas act ! i"
  using assms
proof (induction js arbitrary: act)
  case Nil
  then show ?case by simp
next
  case (Cons j js)
  then obtain act1 act2 where
    o: "inherit_objs env (Types (act_pkg dep)) j (act_objLemmas dep ! j) act = Inr act1"
    and p: "inherit_pkgs env j (act_pkgLemmas dep ! j) act1 = Inr act2"
    and rest: "inherit_types env dep js act2 = Inr act'"
    by (auto split: sum.splits if_splits)
  from Cons.prems(2) have "i \<noteq> j" "i \<notin> set js" by auto
  with Cons.IH [OF rest] inherit_objs_frame [OF o] inherit_pkgs_frame [OF p]
  show ?case by simp
qed

lemma inherit_types_copies:
  assumes "inherit_types env dep js act = Inr act'" and "i \<in> set js" and "distinct js"
    and "distinct (map fst (act_objLemmas dep ! i))"
  shows "map_of (act_objLemmas act' ! i) obj =
           (case copied env (Types (act_pkg dep)) (act_objLemmas dep ! i) obj of
              Some l' \<Rightarrow> Some l'
            | None \<Rightarrow> map_of (act_objLemmas act ! i) obj)
       \<and> ((copied env (Types (act_pkg dep)) (act_objLemmas dep ! i) obj \<noteq> None) =
            (obj \<in> dom (map_of (act_objLemmas dep ! i))
             \<and> exportedFrom obj (Types (act_pkg dep)) = Inr True))"
  using assms(1,2,3)
proof (induction js arbitrary: act)
  case Nil
  then show ?case by simp
next
  case (Cons j js)
  then obtain act1 act2 where
    o: "inherit_objs env (Types (act_pkg dep)) j (act_objLemmas dep ! j) act = Inr act1"
    and p: "inherit_pkgs env j (act_pkgLemmas dep ! j) act1 = Inr act2"
    and rest: "inherit_types env dep js act2 = Inr act'"
    by (auto split: sum.splits if_splits)
  show ?case
  proof (cases "i = j")
    case True
    with Cons.prems(3) have "i \<notin> set js" by simp
    from inherit_types_frame [OF rest this] inherit_pkgs_frame [OF p]
    have "act_objLemmas act' ! i = act_objLemmas act1 ! i" by simp
    with inherit_objs_copies [OF o [folded True] assms(4), of obj] show ?thesis by simp
  next
    case False
    with Cons.prems have "i \<in> set js" "distinct js" by auto
    from inherit_objs_frame [OF o] inherit_pkgs_frame [OF p] False
    have "act_objLemmas act2 ! i = act_objLemmas act ! i" by simp
    with Cons.IH [OF rest \<open>i \<in> set js\<close> \<open>distinct js\<close>]
    show ?thesis by (simp cong: option.case_cong)
  qed
qed

text \<open>
  C3 (cross-package visibility), as amended.  When \<open>inheritLemmas\<close> returns, the lemma of
  an object under a lemma type of the analysis is the copy of the lemma of the dependency if
  the dependency has one for the object and \<open>exportedFrom\<close> holds of the object and the
  package of the dependency, and is the action's own entry otherwise; \<open>exportedFrom\<close> holds
  exactly of an exported function or variable of that package, of a method, of a field,
  of a type name and of a constant.  A function that is no method and a variable that is
  no field are never copied when they belong to another package.
\<close>

theorem inheritLemmas_visibility:
  assumes "inheritLemmas env act dep = Inr act'"
    and "i < length (LemmaTypes (act_a dep))"
    and "distinct (map fst (act_objLemmas dep ! i))"
  shows "map_of (act_objLemmas act' ! i) obj =
           (case copied env (Types (act_pkg dep)) (act_objLemmas dep ! i) obj of
              Some l' \<Rightarrow> Some l'
            | None \<Rightarrow> map_of (act_objLemmas act ! i) obj)
       \<and> ((copied env (Types (act_pkg dep)) (act_objLemmas dep ! i) obj \<noteq> None) =
            (obj \<in> dom (map_of (act_objLemmas dep ! i))
             \<and> exportedFrom obj (Types (act_pkg dep)) = Inr True))
       \<and> ((exportedFrom obj pkg = Inr True) =
            ((okind obj = KFunc
                \<and> ((Exported obj \<and> opkg obj = Some pkg) \<or> hasRecv obj = Inr True))
             \<or> (okind obj = KVar \<and> ((Exported obj \<and> opkg obj = Some pkg) \<or> isField obj))
             \<or> okind obj = KTypeName \<or> okind obj = KConst))
       \<and> (opkg obj \<noteq> Some pkg
              \<and> ((okind obj = KFunc \<and> hasRecv obj = Inr False)
                  \<or> (okind obj = KVar \<and> \<not> isField obj))
            \<longrightarrow> exportedFrom obj pkg = Inr False)"
proof -
  from assms(2) have mem: "i \<in> set [0..<length (LemmaTypes (act_a dep))]" by simp
  have d: "distinct [0..<length (LemmaTypes (act_a dep))]" by simp
  from assms(1) have
    "inherit_types env dep [0..<length (LemmaTypes (act_a dep))] act = Inr act'"
    by (simp add: inheritLemmas_def)
  from inherit_types_copies [OF this mem d assms(3), of obj] exportedFrom_iff [of obj pkg]
  show ?thesis by (auto simp: exportedFrom_def)
qed


lemma inherit_Ar_Aq:
  "inheritLemmas env_idle action_Ar action_Aq
     = Inr (action_Ar\<lparr>act_objLemmas := [[(type_T, LemmaV note_type ''T'')]]\<rparr>)"
  by (simp add: inheritLemmas_def action_Aq_def action_Ar_def analysis_A_def env_idle_def
        exportedFrom_def recode_def dbg_def func_h_def type_T_def Exported_def isUpper_def
        hasRecv_def package_q_def)

theorem inheritLemmas_visibility_witness:
  "inheritLemmas env_idle action_Ar action_Aq
     = Inr (action_Ar\<lparr>act_objLemmas := [[(type_T, LemmaV note_type ''T'')]]\<rparr>)
   \<and> 0 < length (LemmaTypes (act_a action_Aq))
   \<and> distinct (map fst (act_objLemmas action_Aq ! 0))
   \<and> map_of [(type_T, LemmaV note_type ''T'')] func_h = None
   \<and> func_h \<in> dom (map_of (act_objLemmas action_Aq ! 0))
   \<and> exportedFrom func_h (Types (act_pkg action_Aq)) = Inr False
   \<and> opkg func_F \<noteq> Some 2 \<and> okind func_F = KFunc \<and> hasRecv func_F = Inr False
   \<and> exportedFrom func_F 2 = Inr False"
proof -
  have len: "0 < length (LemmaTypes (act_a action_Aq))"
    by (simp add: action_Aq_def analysis_A_def)
  have dist: "distinct (map fst (act_objLemmas action_Aq ! 0))"
    by (simp add: action_Aq_def func_h_def type_T_def)
  have other: "opkg func_F \<noteq> Some 2 \<and> okind func_F = KFunc \<and> hasRecv func_F = Inr False"
    by (simp add: func_F_def hasRecv_def)
  have mem: "func_h \<in> dom (map_of (act_objLemmas action_Aq ! 0))"
    by (simp add: action_Aq_def)
  have own: "map_of (act_objLemmas action_Ar ! 0) func_h = None"
    by (simp add: action_Ar_def)
  have hidden: "exportedFrom func_h (Types (act_pkg action_Aq)) = Inr False"
    by (simp add: exportedFrom_def func_h_def Exported_def isUpper_def hasRecv_def)
  from inheritLemmas_visibility [OF inherit_Ar_Aq len dist, where obj = func_h and pkg = 2]
    hidden own mem
  have a: "map_of [(type_T, LemmaV note_type ''T'')] func_h = None"
    by (auto split: option.splits)
  from inheritLemmas_visibility [OF inherit_Ar_Aq len dist, where obj = func_F and pkg = 2]
    other
  have b: "exportedFrom func_F 2 = Inr False"
    by blast
  from a b len dist other mem hidden inherit_Ar_Aq show ?thesis by blast
qed

text \<open>
  C3 as stated fails in its last part: the type \<open>T\<close> belongs to package \<open>p\<close>, and the action
  on \<open>r\<close> inherits its lemma from the action on \<open>q\<close>.
\<close>

theorem inheritLemmas_other_package:
  "opkg type_T = Some 1 \<and> Types (act_pkg action_Aq) = 2 \<and> okind type_T = KTypeName
   \<and> map_of (act_objLemmas action_Aq ! 0) type_T = Some (LemmaV note_type ''T'')
   \<and> exportedFrom type_T (Types (act_pkg action_Aq)) = Inr True
   \<and> inheritLemmas env_idle action_Ar action_Aq
       = Inr (action_Ar\<lparr>act_objLemmas := [[(type_T, LemmaV note_type ''T'')]]\<rparr>)"
  by (simp add: inheritLemmas_def action_Aq_def action_Ar_def analysis_A_def env_idle_def
        exportedFrom_def recode_def dbg_def func_h_def type_T_def Exported_def isUpper_def
        hasRecv_def package_q_def)

section \<open>The action graph\<close>

lemma fold_requires:
  assumes "\<And>req acts. req \<in> set reqs \<Longrightarrow> Inv acts
             \<Longrightarrow> Inv (fst (mk acts req)) \<and> snd (mk acts req) = (req, pkg)"
    and "Inv aacc"
  shows "Inv (fst (fold (\<lambda>req (acts, deps). (fst (mk acts req), deps @ [snd (mk acts req)]))
                   reqs (aacc, dacc)))
       \<and> snd (fold (\<lambda>req (acts, deps). (fst (mk acts req), deps @ [snd (mk acts req)]))
                   reqs (aacc, dacc))
           = dacc @ map (\<lambda>req. (req, pkg)) reqs"
  using assms
proof (induction reqs arbitrary: aacc dacc)
  case Nil
  then show ?case by simp
next
  case (Cons req reqs)
  from Cons.prems(1) [of req aacc] Cons.prems(2)
  have h: "Inv (fst (mk aacc req))" and k: "snd (mk aacc req) = (req, pkg)" by simp_all
  have "\<And>r acts. r \<in> set reqs \<Longrightarrow> Inv acts \<Longrightarrow> Inv (fst (mk acts r)) \<and> snd (mk acts r) = (r, pkg)"
    by (rule Cons.prems(1)) simp_all
  from Cons.IH [OF this h, where dacc = "dacc @ [snd (mk aacc req)]"] k
  show ?case by simp
qed

lemma fold_imports:
  assumes "\<And>path imp acts. path \<in> set paths \<Longrightarrow> look path = Some imp \<Longrightarrow> Inv acts
             \<Longrightarrow> Inv (fst (mk acts imp)) \<and> snd (mk acts imp) = (a, imp)"
    and "Inv aacc"
  shows "Inv (fst (fold (\<lambda>path (acts, deps).
                        (case look path of
                           None \<Rightarrow> (acts, deps)
                         | Some imp \<Rightarrow> (fst (mk acts imp), deps @ [snd (mk acts imp)])))
                   paths (aacc, dacc)))
       \<and> snd (fold (\<lambda>path (acts, deps).
                        (case look path of
                           None \<Rightarrow> (acts, deps)
                         | Some imp \<Rightarrow> (fst (mk acts imp), deps @ [snd (mk acts imp)])))
                   paths (aacc, dacc))
           = dacc @ List.map_filter (\<lambda>path. map_option (Pair a) (look path)) paths"
  using assms
proof (induction paths arbitrary: aacc dacc)
  case Nil
  then show ?case by simp
next
  case (Cons path paths)
  have rest: "\<And>p imp acts. p \<in> set paths \<Longrightarrow> look p = Some imp \<Longrightarrow> Inv acts
                \<Longrightarrow> Inv (fst (mk acts imp)) \<and> snd (mk acts imp) = (a, imp)"
    by (rule Cons.prems(1)) simp_all
  show ?case
  proof (cases "look path")
    case None
    with Cons.IH [OF rest Cons.prems(2), where dacc = dacc] show ?thesis by simp
  next
    case (Some imp)
    from Cons.prems(1) [of path imp aacc] Some Cons.prems(2)
    have h: "Inv (fst (mk aacc imp))" and k: "snd (mk aacc imp) = (a, imp)" by simp_all
    from Cons.IH [OF rest h, where dacc = "dacc @ [snd (mk aacc imp)]"] k Some
    show ?thesis by simp
  qed
qed

lemma graph_ok_update:
  assumes "graph_ok actions"
  shows "graph_ok (actions((a, pkg) \<mapsto> new_action a pkg (horizontal a pkg @ vertical a pkg)))"
  using assms by (auto simp: graph_ok_def new_action_def)

lemma mkAction_graph:
  "graph_ok actions \<Longrightarrow>
     graph_ok (fst (mkAction actions a pkg)) \<and> snd (mkAction actions a pkg) = (a, pkg)
     \<and> (\<exists>act. fst (mkAction actions a pkg) (a, pkg) = Some act)"
proof (induction actions a pkg rule: mkAction.induct)
  case (1 actions a pkg)
  show ?case
  proof (cases "actions (a, pkg)")
    case (Some act)
    then have "mkAction actions a pkg = (actions, (a, pkg))"
      by (subst mkAction.simps) simp
    with "1.prems" Some show ?thesis by simp
  next
    case None
    let ?f1 = "fold (\<lambda>req (acts, deps).
                       (fst (mkAction acts req pkg), deps @ [snd (mkAction acts req pkg)]))
                 (Requires a) (actions, [])"
    have step1: "\<And>req acts. req \<in> set (Requires a) \<Longrightarrow> graph_ok acts
             \<Longrightarrow> graph_ok (fst (mkAction acts req pkg)) \<and> snd (mkAction acts req pkg) = (req, pkg)"
      using "1.IH"(1) [OF None] by blast
    from fold_requires [where reqs = "Requires a" and Inv = graph_ok
          and mk = "\<lambda>acts req. mkAction acts req pkg" and pkg = pkg and aacc = actions
          and dacc = "[]", OF step1 "1.prems"]
    have ok1: "graph_ok (fst ?f1)" and deps1: "snd ?f1 = horizontal a pkg"
      by (simp_all add: horizontal_def)
    let ?f2 = "fold (\<lambda>path (acts, deps).
                       (case map_of (Imports pkg) path of
                          None \<Rightarrow> (acts, deps)
                        | Some imp \<Rightarrow>
                            (fst (mkAction acts a imp), deps @ [snd (mkAction acts a imp)])))
                 (sort (map fst (Imports pkg))) (fst ?f1, snd ?f1)"
    let ?r2 = "if LemmaTypes a \<noteq> [] then ?f2 else (fst ?f1, snd ?f1)"
    have r2: "graph_ok (fst ?r2) \<and> snd ?r2 = horizontal a pkg @ vertical a pkg"
    proof (cases "LemmaTypes a = []")
      case True
      with ok1 deps1 show ?thesis by (simp add: vertical_def)
    next
      case False
      have step2: "\<And>path imp acts. path \<in> set (sort (map fst (Imports pkg)))
          \<Longrightarrow> map_of (Imports pkg) path = Some imp \<Longrightarrow> graph_ok acts
          \<Longrightarrow> graph_ok (fst (mkAction acts a imp)) \<and> snd (mkAction acts a imp) = (a, imp)"
        using "1.IH"(3) [OF None refl prod.collapse False] by blast
      from fold_imports [where paths = "sort (map fst (Imports pkg))"
            and look = "map_of (Imports pkg)" and Inv = graph_ok
            and mk = "\<lambda>acts imp. mkAction acts a imp" and a = a and aacc = "fst ?f1"
            and dacc = "snd ?f1", OF step2 ok1] deps1 False
      show ?thesis by (simp add: vertical_def)
    qed
    define r2 where "r2 = ?r2"
    from r2 have ok2: "graph_ok (fst r2)" and deps2: "snd r2 = horizontal a pkg @ vertical a pkg"
      unfolding r2_def by simp_all
    have unfold: "mkAction actions a pkg
        = ((fst r2)((a, pkg) \<mapsto> new_action a pkg (snd r2)), (a, pkg))"
      unfolding r2_def using None by (subst mkAction.simps) (simp add: Let_def split_beta)
    from graph_ok_update [OF ok2, of a pkg] deps2
    have g: "graph_ok (fst (mkAction actions a pkg))"
      unfolding unfold by (simp only: fst_conv)
    have s: "snd (mkAction actions a pkg) = (a, pkg)"
      unfolding unfold by simp
    have e: "\<exists>act. fst (mkAction actions a pkg) (a, pkg) = Some act"
      unfolding unfold by simp
    from g s e show ?thesis by blast
  qed
qed


lemma insort_map: "insort (f x) (map f ys) = map f (insort_key f x ys)"
  by (induction ys) auto

lemma sort_map_key: "sort (map f xs) = map f (sort_key f xs)"
  by (induction xs) (auto simp: insort_map)

lemma map_filter_lookup:
  assumes "\<And>p v. (p, v) \<in> set ys \<Longrightarrow> look p = Some v"
  shows "List.map_filter (\<lambda>p. map_option (Pair a) (look p)) (map fst ys)
           = map (\<lambda>(p, v). (a, v)) ys"
  using assms
proof (induction ys)
  case Nil
  then show ?case by simp
next
  case (Cons y ys)
  obtain p v where y: "y = (p, v)" by (cases y)
  with Cons.prems [of p v] have "look p = Some v" by simp
  moreover have "List.map_filter (\<lambda>p. map_option (Pair a) (look p)) (map fst ys)
           = map (\<lambda>(p, v). (a, v)) ys"
    by (rule Cons.IH) (simp add: Cons.prems)
  ultimately show ?case using y by simp
qed

lemma vertical_sorted_imports:
  assumes "distinct (map fst (Imports pkg))"
  shows "vertical a pkg =
           (if LemmaTypes a = [] then []
            else map (\<lambda>(path, imp). (a, imp)) (sort_key fst (Imports pkg)))"
proof -
  have "\<And>p v. (p, v) \<in> set (sort_key fst (Imports pkg)) \<Longrightarrow> map_of (Imports pkg) p = Some v"
    using assms by simp
  from map_filter_lookup [of "sort_key fst (Imports pkg)" "map_of (Imports pkg)" a, OF this]
  show ?thesis by (simp add: vertical_def sort_map_key)
qed

lemma import_differs: "(path, imp) \<in> set (Imports pkg) \<Longrightarrow> imp \<noteq> pkg"
  using size_import [of path imp "Imports pkg"] by (cases pkg) auto

lemma vertical_edge_iff:
  assumes "(path, imp) \<in> set (Imports pkg)" and "distinct (map fst (Imports pkg))"
  shows "((a, imp) \<in> set (horizontal a pkg @ vertical a pkg)) = (LemmaTypes a \<noteq> [])"
proof -
  from import_differs [OF assms(1)] have "(a, imp) \<notin> set (horizontal a pkg)"
    by (auto simp: horizontal_def)
  moreover from assms have "((a, imp) \<in> set (vertical a pkg)) = (LemmaTypes a \<noteq> [])"
    by (force simp: vertical_sorted_imports)
  ultimately show ?thesis by simp
qed

text \<open>
  C5 (vertical edges).  Starting from a map of actions that satisfies \<open>graph_ok\<close> (the empty
  map does), \<open>mkAction\<close> returns a map that satisfies it and holds the action of the
  analysis on the package, whose dependencies are the horizontal edges followed by the
  vertical ones.  When the import paths are distinct, as the keys of a Go map are, the
  vertical edges are one edge \<open>(a, imp)\<close> for each import, in ascending order of the
  paths, if the analysis declares a lemma type, and none otherwise; so the action depends
  on \<open>(a, imp)\<close> for an import \<open>imp\<close> if and only if the analysis declares a lemma type.
\<close>

theorem mkAction_vertical_edges:
  assumes "graph_ok actions"
  shows "graph_ok (fst (mkAction actions a pkg))
       \<and> (\<exists>act. fst (mkAction actions a pkg) (a, pkg) = Some act
              \<and> act_deps act = horizontal a pkg @ vertical a pkg)
       \<and> (distinct (map fst (Imports pkg)) \<longrightarrow>
            vertical a pkg =
              (if LemmaTypes a = [] then []
               else map (\<lambda>(path, imp). (a, imp)) (sort_key fst (Imports pkg)))
            \<and> (\<forall>imp \<in> snd ` set (Imports pkg).
                  ((a, imp) \<in> set (horizontal a pkg @ vertical a pkg)) = (LemmaTypes a \<noteq> [])))"
proof -
  from mkAction_graph [OF assms, of a pkg] obtain act where
    ok: "graph_ok (fst (mkAction actions a pkg))"
    and act: "fst (mkAction actions a pkg) (a, pkg) = Some act"
    by blast
  from ok act have "act_deps act = horizontal a pkg @ vertical a pkg"
    by (simp add: graph_ok_def)
  with ok act vertical_sorted_imports [of pkg a] vertical_edge_iff [of _ _ pkg a]
  show ?thesis by auto
qed

theorem mkAction_vertical_edges_witness:
  "graph_ok Map.empty
   \<and> distinct (map fst (Imports package_s))
   \<and> LemmaTypes analysis_A \<noteq> []
   \<and> map_option act_deps (fst (mkAction Map.empty analysis_A package_s) (analysis_A, package_s))
       = Some [(analysis_A, package_p), (analysis_A, package_q)]
   \<and> vertical analysis_A package_s = [(analysis_A, package_p), (analysis_A, package_q)]"
proof -
  have ok: "graph_ok Map.empty"
    by (simp add: graph_ok_def)
  have d: "distinct (map fst (Imports package_s))"
    by (simp add: package_s_def)
  have l: "LemmaTypes analysis_A \<noteq> []"
    by (simp add: analysis_A_def)
  have h: "horizontal analysis_A package_s = []"
    by (simp add: horizontal_def analysis_A_def)
  have s: "sort_key fst (Imports package_s) = [(''p'', package_p), (''q'', package_q)]"
    by (simp add: package_s_def)
  from mkAction_vertical_edges [OF ok, of analysis_A package_s] d l h s
  show ?thesis by (auto simp: graph_ok_def)
qed

section \<open>Executing the graph\<close>

lemma failed_deps_collects:
  assumes "list_all (\<lambda>d. st_actions st d \<noteq> None) deps"
  shows "failed_deps env (st_actions st) deps failed
           = Inr (failed @ map (action_String env) (filter (dep_failed st) deps))"
  using assms by (induction deps arbitrary: failed) (auto simp: dep_failed_def)

lemma inherit_objs_deps:
  "inherit_objs env pkg i entries act = Inr act' \<Longrightarrow> act_deps act' = act_deps act"
proof (induction entries arbitrary: act)
  case Nil
  then show ?case by simp
next
  case (Cons e entries)
  obtain obj l where e: "e = (obj, l)" by (cases e)
  show ?case
  proof (cases "exportedFrom obj pkg = Inr True")
    case False
    with Cons.prems e have "inherit_objs env pkg i entries act = Inr act'"
      by (auto split: sum.splits bool.splits)
    then show ?thesis by (rule Cons.IH)
  next
    case True
    with Cons.prems e obtain l' where
      "inherit_objs env pkg i entries
         (act\<lparr>act_objLemmas :=
                (act_objLemmas act)[i := AList.update obj l' (act_objLemmas act ! i)]\<rparr>)
       = Inr act'"
      by (auto split: sum.splits if_splits)
    from Cons.IH [OF this] show ?thesis by simp
  qed
qed

lemma inherit_pkgs_deps:
  "inherit_pkgs env i entries act = Inr act' \<Longrightarrow> act_deps act' = act_deps act"
proof (induction entries arbitrary: act)
  case Nil
  then show ?case by simp
next
  case (Cons e entries)
  obtain pkg l where e: "e = (pkg, l)" by (cases e)
  with Cons.prems obtain l' where
    "inherit_pkgs env i entries
       (act\<lparr>act_pkgLemmas :=
              (act_pkgLemmas act)[i := AList.update pkg l' (act_pkgLemmas act ! i)]\<rparr>)
     = Inr act'"
    by (auto split: sum.splits if_splits)
  from Cons.IH [OF this] show ?case by simp
qed

lemma inherit_types_deps:
  "inherit_types env dep js act = Inr act' \<Longrightarrow> act_deps act' = act_deps act"
proof (induction js arbitrary: act)
  case Nil
  then show ?case by simp
next
  case (Cons j js)
  then obtain act1 act2 where
    o: "inherit_objs env (Types (act_pkg dep)) j (act_objLemmas dep ! j) act = Inr act1"
    and p: "inherit_pkgs env j (act_pkgLemmas dep ! j) act1 = Inr act2"
    and rest: "inherit_types env dep js act2 = Inr act'"
    by (auto split: sum.splits if_splits)
  from Cons.IH [OF rest] inherit_objs_deps [OF o] inherit_pkgs_deps [OF p]
  show ?case by simp
qed

lemma plumb_deps:
  "plumb env actions deps act inputs = Inr (act', inputs') \<Longrightarrow> act_deps act' = act_deps act"
proof (induction deps arbitrary: act inputs)
  case Nil
  then show ?case by simp
next
  case (Cons dep deps)
  from Cons.prems obtain d where d: "actions dep = Some d"
    by (auto split: option.splits)
  show ?case
  proof (cases "act_pkg d = act_pkg act")
    case True
    with Cons.prems d obtain u :: Unit where
      "plumb env actions deps act (AList.update (act_a d) (Output u) inputs) = Inr (act', inputs')"
      by (auto split: option.splits)
    then show ?thesis by (rule Cons.IH)
  next
    case False
    note pkg = this
    show ?thesis
    proof (cases "act_a d = act_a act")
      case True
      with Cons.prems d pkg obtain act1 where
        i: "inheritLemmas env act d = Inr act1"
        and rest: "plumb env actions deps act1 inputs = Inr (act', inputs')"
        by (auto split: sum.splits)
      from i have "act_deps act1 = act_deps act"
        by (simp add: inheritLemmas_def inherit_types_deps)
      with Cons.IH [OF rest] show ?thesis by simp
    next
      case False
      with Cons.prems d pkg have "plumb env actions deps act inputs = Inr (act', inputs')"
        by simp
      then show ?thesis by (rule Cons.IH)
    qed
  qed
qed

lemma setObjLemma_deps: "act_deps (snd (setObjLemma act obj l)) = act_deps act"
  by (auto simp: setObjLemma_def split: option.splits sum.splits)

lemma setPkgLemma_deps: "act_deps (snd (setPkgLemma act l)) = act_deps act"
  by (auto simp: setPkgLemma_def split: option.splits sum.splits)

lemma set_calls_deps: "act_deps (snd (set_calls cs act)) = act_deps act"
proof (induction cs arbitrary: act)
  case Nil
  then show ?case by simp
next
  case (Cons c cs)
  show ?case
  proof (cases c)
    case (SetObj obj l)
    with Cons.IH [of "snd (setObjLemma act obj l)"] setObjLemma_deps [of act obj l]
    show ?thesis by (auto split: prod.splits option.splits)
  next
    case (SetPkg l)
    with Cons.IH [of "snd (setPkgLemma act l)"] setPkgLemma_deps [of act l]
    show ?thesis by (auto split: prod.splits option.splits)
  qed
qed

lemma run_unit_frame:
  assumes "run_unit env k act inputs st = Inr st'"
  shows "\<exists>act'. st_actions st' = (st_actions st)(k \<mapsto> act') \<and> act_deps act' = act_deps act"
proof (cases "IllTyped (act_pkg act) \<and> \<not> RunDespiteErrors (act_a act)")
  case True
  with assms show ?thesis
    by (auto simp: run_unit_def Let_def seal_def)
next
  case False
  let ?unit = "\<lparr>Analysis = act_a act, Pkg = Types (act_pkg act), Inputs = inputs,
                  Output = None, SetObjectLemma = True, SetPackageLemma = True\<rparr>"
  let ?act1 = "act\<lparr>act_unit := Some ?unit\<rparr>"
  let ?r = "Run env (act_a act) ?act1"
  from assms False obtain act2 where sc: "set_calls (r_calls ?r) ?act1 = (None, act2)"
    by (auto simp: run_unit_def Let_def split: prod.splits option.splits)
  from set_calls_deps [of "r_calls ?r" ?act1] sc have "act_deps act2 = act_deps act" by simp
  with assms False sc show ?thesis
    by (auto simp: run_unit_def Let_def seal_def)
qed

lemma execOnce_rest_frame:
  assumes "execOnce_rest env k st = Inr st'" and "st_actions st k = Some act"
  shows "\<exists>act'. st_actions st' = (st_actions st)(k \<mapsto> act') \<and> act_deps act' = act_deps act"
proof -
  from assms obtain failed where f: "failed_deps env (st_actions st) (act_deps act) [] = Inr failed"
    by (auto simp: execOnce_rest_def split: sum.splits)
  show ?thesis
  proof (cases "failed = []")
    case False
    with assms f show ?thesis by (auto simp: execOnce_rest_def)
  next
    case True
    with assms f obtain act1 inputs where
      p: "plumb env (st_actions st) (act_deps act)
            (act\<lparr>act_objLemmas := replicate (length (LemmaTypes (act_a act))) [],
                 act_pkgLemmas := replicate (length (LemmaTypes (act_a act))) []\<rparr>) []
          = Inr (act1, inputs)"
      and r: "run_unit env k act1 inputs st = Inr st'"
      by (auto simp: execOnce_rest_def split: sum.splits)
    from plumb_deps [OF p] run_unit_frame [OF r] show ?thesis by auto
  qed
qed

lemma keepsD:
  "keeps st st' \<Longrightarrow> st_actions st d = Some a
     \<Longrightarrow> \<exists>a'. st_actions st' d = Some a' \<and> act_deps a' = act_deps a"
  unfolding keeps_def by (metis map_option_eq_Some)

lemma keeps_dom: "keeps st st' \<Longrightarrow> (st_actions st' d \<noteq> None) = (st_actions st d \<noteq> None)"
  unfolding keeps_def by (metis option.map_disc_iff)

lemma keeps_update:
  assumes "st_actions st k = Some a" and "act_deps a' = act_deps a"
    and "st_actions st' = (st_actions st)(k \<mapsto> a')"
  shows "keeps st st'"
  unfolding keeps_def using assms by simp

lemma keeps_refl: "keeps st st"
  unfolding keeps_def by simp

lemma keeps_trans: "keeps st st1 \<Longrightarrow> keeps st1 st2 \<Longrightarrow> keeps st st2"
  unfolding keeps_def by simp

lemma exec_keeps:
  "exec n env k st = Some (Inr st') \<Longrightarrow> keeps st st' \<and> st_actions st k \<noteq> None"
  "execAll n env ks st = Some (Inr st') \<Longrightarrow> keeps st st' \<and> list_all (\<lambda>d. st_actions st d \<noteq> None) ks"
proof (induction n env k st and n env ks st arbitrary: st' and st' rule: exec_execAll.induct)
  case (1 env k st)
  then show ?case by simp
next
  case (2 n env k st)
  from "2.prems" obtain act where act: "st_actions st k = Some act"
    by (auto split: option.splits)
  show ?case
  proof (cases "k \<in> set (st_once st)")
    case True
    with "2.prems" act show ?thesis by (simp add: keeps_refl)
  next
    case False
    with "2.prems" act obtain st1 st2 where
      all: "execAll n env (act_deps act) st = Some (Inr st1)"
      and rest: "execOnce_rest env k st1 = Inr st2"
      and st': "st' = st2\<lparr>st_once := k # st_once st2\<rparr>"
      by (auto split: option.splits sum.splits)
    from "2.IH" [OF act False all] have k1: "keeps st st1" by simp
    from keepsD [OF k1 act] obtain act1 where act1: "st_actions st1 k = Some act1"
      by blast
    from execOnce_rest_frame [OF rest act1] obtain act2 where
      "st_actions st2 = (st_actions st1)(k \<mapsto> act2)" and "act_deps act2 = act_deps act1"
      by blast
    with act1 have "keeps st1 st2" by (blast intro: keeps_update)
    with k1 have "keeps st st2" by (rule keeps_trans)
    with st' have "keeps st st'" unfolding keeps_def by simp
    with act show ?thesis by simp
  qed
next
  case (3 n env st)
  then show ?case by (simp add: keeps_refl)
next
  case (4 n env k ks st)
  from "4.prems" obtain st1 where
    one: "exec n env k st = Some (Inr st1)" and rest: "execAll n env ks st1 = Some (Inr st')"
    by (auto split: option.splits sum.splits)
  from "4.IH"(1) [OF one] have k1: "keeps st st1" and ex: "st_actions st k \<noteq> None" by simp_all
  from "4.IH"(2) [OF one refl rest] have k2: "keeps st1 st'"
    and all: "list_all (\<lambda>d. st_actions st1 d \<noteq> None) ks" by simp_all
  from all keeps_dom [OF k1] have "list_all (\<lambda>d. st_actions st d \<noteq> None) ks"
    by (simp add: list_all_iff)
  with k1 k2 ex show ?case by (auto intro: keeps_trans)
qed


text \<open>
  C2 (failed prerequisites).  Let action \<open>k\<close> not have run yet, and let the execution of
  its dependencies return the state \<open>st1\<close> in which at least one dependency holds an
  error.  Then \<open>exec\<close> returns; the log of \<open>Run\<close> calls is that of \<open>st1\<close>, so no callback
  ran for \<open>k\<close>; and the only change to the actions is the error of \<open>k\<close>, which is
  \<open>failed prerequisites: \<close> followed by the strings of the failed dependencies, sorted and
  joined by a comma and a space.
\<close>

theorem failed_prerequisites:
  assumes "st_actions st k = Some act" and "k \<notin> set (st_once st)"
    and "execAll n env (act_deps act) st = Some (Inr st1)"
    and "\<exists>dep \<in> set (act_deps act). dep_failed st1 dep"
  shows "\<exists>st2 act1. exec (Suc n) env k st = Some (Inr st2)
           \<and> st_ran st2 = st_ran st1
           \<and> st_actions st1 k = Some act1
           \<and> st_actions st2 =
               (st_actions st1)(k \<mapsto>
                  act1\<lparr>act_err :=
                         Some (''failed prerequisites: ''
                               @ Join (sort (map (action_String env)
                                               (filter (dep_failed st1) (act_deps act))))
                                   '', '')\<rparr>)"
proof -
  from exec_keeps(2) [OF assms(3)] have k1: "keeps st st1"
    and ex: "list_all (\<lambda>d. st_actions st d \<noteq> None) (act_deps act)" by simp_all
  from keepsD [OF k1 assms(1)] obtain act1 where act1: "st_actions st1 k = Some act1"
    and deps: "act_deps act1 = act_deps act" by blast
  from ex keeps_dom [OF k1] have "list_all (\<lambda>d. st_actions st1 d \<noteq> None) (act_deps act)"
    by (simp add: list_all_iff)
  from failed_deps_collects [OF this, of env "[]"] have f:
    "failed_deps env (st_actions st1) (act_deps act) []
       = Inr (map (action_String env) (filter (dep_failed st1) (act_deps act)))"
    by simp
  from assms(4) have ne: "map (action_String env) (filter (dep_failed st1) (act_deps act)) \<noteq> []"
    by (auto simp: filter_empty_conv)
  let ?msg = "''failed prerequisites: ''
               @ Join (sort (map (action_String env) (filter (dep_failed st1) (act_deps act)))) '', ''"
  from act1 deps f ne have rest:
    "execOnce_rest env k st1
       = Inr (st1\<lparr>st_actions := (st_actions st1)(k \<mapsto> act1\<lparr>act_err := Some ?msg\<rparr>)\<rparr>)"
    by (simp add: execOnce_rest_def)
  from assms(1,2,3) rest have
    "exec (Suc n) env k st
       = Some (Inr (st1\<lparr>st_actions := (st_actions st1)(k \<mapsto> act1\<lparr>act_err := Some ?msg\<rparr>),
                       st_once := k # st_once st1\<rparr>))"
    by simp
  with act1 show ?thesis by simp
qed

lemma execAll_A_fails:
  "execAll (Suc (Suc 0)) env_fail [(analysis_A, package_p)] state_AB = Some (Inr state_A_failed)"
  by (simp add: state_AB_def state_A_failed_def action_A_failed_def env_fail_def
        execOnce_rest_def run_unit_def seal_def new_action_def analysis_A_def analysis_B_def
        package_p_def fun_upd_twist)

theorem failed_prerequisites_witness:
  "st_actions state_AB (analysis_B, package_p)
     = Some (new_action analysis_B package_p [(analysis_A, package_p)])
   \<and> (analysis_B, package_p) \<notin> set (st_once state_AB)
   \<and> execAll (Suc (Suc 0)) env_fail [(analysis_A, package_p)] state_AB = Some (Inr state_A_failed)
   \<and> dep_failed state_A_failed (analysis_A, package_p)
   \<and> (\<exists>st2. exec (Suc (Suc (Suc 0))) env_fail (analysis_B, package_p) state_AB = Some (Inr st2)
          \<and> st_ran st2 = [(analysis_A, package_p)]
          \<and> map_option act_err (st_actions st2 (analysis_B, package_p))
              = Some (Some ''failed prerequisites: A@p''))"
proof -
  have a: "st_actions state_AB (analysis_B, package_p)
             = Some (new_action analysis_B package_p [(analysis_A, package_p)])"
    by (simp add: state_AB_def)
  have o: "(analysis_B, package_p) \<notin> set (st_once state_AB)"
    by (simp add: state_AB_def)
  have d: "act_deps (new_action analysis_B package_p [(analysis_A, package_p)])
             = [(analysis_A, package_p)]"
    by (simp add: new_action_def)
  have f: "dep_failed state_A_failed (analysis_A, package_p)"
    by (simp add: dep_failed_def state_A_failed_def action_A_failed_def analysis_A_def
          analysis_B_def)
  then have f': "\<exists>dep \<in> set (act_deps (new_action analysis_B package_p [(analysis_A, package_p)])).
                  dep_failed state_A_failed dep"
    by (simp add: d)
  have s: "action_String env_fail (analysis_A, package_p) = ''A@p''"
    by (simp add: action_String_def env_fail_def analysis_A_def package_p_def)
  have r: "st_ran state_A_failed = [(analysis_A, package_p)]"
    by (simp add: state_A_failed_def)
  have e: "execAll (Suc (Suc 0)) env_fail
             (act_deps (new_action analysis_B package_p [(analysis_A, package_p)])) state_AB
           = Some (Inr state_A_failed)"
    using execAll_A_fails by (simp only: d)
  from failed_prerequisites [OF a o e f'] d f s r
  have "\<exists>st2. exec (Suc (Suc (Suc 0))) env_fail (analysis_B, package_p) state_AB = Some (Inr st2)
          \<and> st_ran st2 = [(analysis_A, package_p)]
          \<and> map_option act_err (st_actions st2 (analysis_B, package_p))
              = Some (Some ''failed prerequisites: A@p'')"
    by auto
  with a o execAll_A_fails f show ?thesis by blast
qed

text \<open>
  A run with two failed dependencies and one that succeeds.  In \<open>env_fail\<close> the callback of
  \<open>A\<close> returns an error, so \<open>B\<close> fails for its prerequisite; \<open>C\<close> succeeds.  The action of
  \<open>D\<close> depends on \<open>C\<close>, \<open>B\<close> and \<open>A\<close>: only the callbacks of \<open>C\<close> and \<open>A\<close> are called, and
  the error of \<open>D\<close> names \<open>A\<close> and \<open>B\<close>, sorted, and not \<open>C\<close>.
\<close>

lemma exec_D_two_failed:
  "map_option (map_sum (\<lambda>e. e)
       (\<lambda>st. (st_ran st, map (\<lambda>a. map_option act_err (st_actions st (a, package_p)))
                           [analysis_C, analysis_B, analysis_A, analysis_D])))
     (exec (Suc (Suc (Suc (Suc 0)))) env_fail (analysis_D, package_p) state_D)
   = Some (Inr ([(analysis_C, package_p), (analysis_A, package_p)],
                [Some None, Some (Some ''failed prerequisites: A@p''), Some (Some ''boom''),
                 Some (Some ''failed prerequisites: A@p, B@p'')]))"
  by code_simp

end
